theory Spec2Isabelle
  imports Complex_Main "HOL-Library.Sublist"
begin

section \<open>Values, arrays and the hierarchical store\<close>

text \<open>
  The exceptions the modelled code can raise. A raise is the \<open>Inl\<close> branch of a sum.
\<close>

datatype exn = ValueError | KeyError | IndexError | TypeError | NameError

text \<open>
  A numeric array is its shape together with its elements in row-major (C) order, as numpy
  keeps them. Floating-point numbers are modelled as reals; where the code produces
  not-a-number, that value is written out separately (\<open>ANaN\<close>, \<open>NaN\<close>).
\<close>

record 'a ndarray =
  shape :: "nat list"
  flat :: "'a list"

definition ndim :: "'a ndarray \<Rightarrow> nat" where
  "ndim a = length (shape a)"

definition well_shaped :: "'a ndarray \<Rightarrow> bool" where
  "well_shaped a \<longleftrightarrow> length (flat a) = prod_list (shape a)"

text \<open>
  An element of a stored array of floats is a number or not-a-number; \<open>float_array\<close> is an
  array of numbers as it is stored.
\<close>

datatype fnum = Num real | NaN

definition float_array :: "real ndarray \<Rightarrow> fnum ndarray" where
  "float_array a = \<lparr>shape = shape a, flat = map Num (flat a)\<rparr>"

text \<open>
  Attribute values of a dataset, and the values of the dictionaries the accessors return.
\<close>

datatype attr_value = AInt int | AReal real | ANaN | AStr string | ATuple "real list"

type_synonym attrs = "string \<rightharpoonup> attr_value"

text \<open>\<open>str(i)\<close> for a non-negative integer, as used in \<open>f'parameter{i}'\<close>.\<close>

fun str_nat :: "nat \<Rightarrow> string" where
  "str_nat n =
     (if n < 10 then [''0123456789'' ! n]
      else str_nat (n div 10) @ [''0123456789'' ! (n mod 10)])"

declare str_nat.simps [simp del]

definition parameter_key :: "nat \<Rightarrow> string" where
  "parameter_key i = ''parameter'' @ str_nat i"

section \<open>Filter ingestion: \<open>Database.add_filter\<close>\<close>

text \<open>
  The loop of \<open>add_filter\<close> (database.py, lines 282-290):
  \<^verbatim>\<open>
  wavel_new = [wavelength[0]]
  transm_new = [transmission[0]]
  for i in range(wavelength.size-1):
      if wavelength[i+1] > wavel_new[-1]:
          wavel_new.append(wavelength[i+1])
          transm_new.append(transmission[i+1])
  \<close>
  \<open>filter_loop ws ts wn tn\<close> runs the loop on the elements \<open>ws\<close> of the wavelength
  array and \<open>ts\<close> of the transmission array that are still to be visited, with the two
  output lists built so far. Reading \<open>transmission[i+1]\<close> past the end of a shorter
  transmission array raises \<open>IndexError\<close>.
\<close>

fun filter_loop ::
  "real list \<Rightarrow> real list \<Rightarrow> real list \<Rightarrow> real list \<Rightarrow> exn + (real list \<times> real list)"
where
  "filter_loop [] ts wn tn = Inr (wn, tn)"
| "filter_loop (w # ws) ts wn tn =
     (if w > last wn then
        (case ts of
           [] \<Rightarrow> Inl IndexError
         | t # ts' \<Rightarrow> filter_loop ws ts' (wn @ [w]) (tn @ [t]))
      else filter_loop ws (tl ts) wn tn)"

text \<open>
  The whole block: \<open>wavelength[0]\<close> and \<open>transmission[0]\<close> raise \<open>IndexError\<close> on an
  empty array. The result is the pair of columns handed to \<open>np.column_stack\<close>.
\<close>

definition filter_columns :: "real list \<Rightarrow> real list \<Rightarrow> exn + (real list \<times> real list)" where
  "filter_columns wavelength transmission =
     (case wavelength of
        [] \<Rightarrow> Inl IndexError
      | w0 # ws \<Rightarrow>
          (case transmission of
             [] \<Rightarrow> Inl IndexError
           | t0 # ts \<Rightarrow> filter_loop ws ts [w0] [t0]))"

section \<open>Posterior accessors: \<open>get_probable_sample\<close>, \<open>get_median_sample\<close>\<close>

text \<open>
  The accessors read the dataset \<open>results/fit/{tag}/samples\<close> (array and attributes) and,
  for the probable sample, the dataset \<open>results/fit/{tag}/ln_prob\<close>. The functions below take
  what is read from the store as arguments: the two arrays and the attributes of the samples
  dataset.
\<close>

text \<open>
  \<^verbatim>\<open>
  if 'n_param' in dset.attrs:
      n_param = dset.attrs['n_param']
  elif 'nparam' in dset.attrs:
      n_param = dset.attrs['nparam']
  \<close>
  When neither attribute exists the variable stays unbound and its first use raises
  (\<open>UnboundLocalError\<close>, a \<open>NameError\<close>); a value that is not an integer raises
  \<open>TypeError\<close> where it is used as one (\<open>range\<close>, \<open>reshape\<close>).
\<close>

definition n_param_attr :: "attrs \<Rightarrow> attr_value option" where
  "n_param_attr ats = (case ats ''n_param'' of Some v \<Rightarrow> Some v | None \<Rightarrow> ats ''nparam'')"

definition as_int :: "attr_value option \<Rightarrow> exn + int" where
  "as_int v = (case v of None \<Rightarrow> Inl NameError | Some (AInt n) \<Rightarrow> Inr n | Some _ \<Rightarrow> Inl TypeError)"

text \<open>
  Python's slice \<open>a[b:]\<close> along the first axis: a negative start counts from the end, and
  the start is clipped to the length.
\<close>

definition slice_start :: "int \<Rightarrow> nat \<Rightarrow> nat" where
  "slice_start b n = (if b < 0 then nat (max (int n + b) 0) else min (nat b) n)"

definition drop_axis0 :: "int \<Rightarrow> 'a ndarray \<Rightarrow> 'a ndarray" where
  "drop_axis0 b a =
     (let s = slice_start b (hd (shape a)); inner = prod_list (tl (shape a))
      in \<lparr>shape = (hd (shape a) - s) # tl (shape a), flat = drop (s * inner) (flat a)\<rparr>)"

text \<open>
  \<open>np.reshape(a, (-1, n))\<close> keeps the elements in order and raises \<open>ValueError\<close> when the
  size is not a multiple of \<open>n\<close> (or \<open>n\<close> is not positive); \<open>np.reshape(a, -1)\<close> flattens.
\<close>

definition reshape_rows :: "int \<Rightarrow> 'a ndarray \<Rightarrow> exn + 'a ndarray" where
  "reshape_rows n a =
     (if n \<le> 0 \<or> length (flat a) mod nat n \<noteq> 0 then Inl ValueError
      else Inr \<lparr>shape = [length (flat a) div nat n, nat n], flat = flat a\<rparr>)"

definition reshape_flat :: "'a ndarray \<Rightarrow> 'a ndarray" where
  "reshape_flat a = \<lparr>shape = [length (flat a)], flat = flat a\<rparr>"

text \<open>
  \<open>ndarray.argmax()\<close>: the position, in the flattened array, of the first occurrence of the
  maximum; \<open>ValueError\<close> on an empty array.
\<close>

fun first_max :: "real list \<Rightarrow> nat" where
  "first_max [] = 0"
| "first_max [x] = 0"
| "first_max (x # y # ys) =
     (let k = first_max (y # ys) in if (y # ys) ! k \<le> x then 0 else Suc k)"

definition np_argmax :: "real list \<Rightarrow> exn + nat" where
  "np_argmax xs = (if xs = [] then Inl ValueError else Inr (first_max xs))"

text \<open>\<open>np.unravel_index(k, shape)\<close> in row-major order.\<close>

fun unravel_index :: "nat \<Rightarrow> nat list \<Rightarrow> nat list" where
  "unravel_index k [] = []"
| "unravel_index k (d # ds) = (k div prod_list ds) # unravel_index (k mod prod_list ds) ds"

text \<open>
  \<open>a[idx]\<close> for a tuple of integer indices: one leading axis is consumed per index; an index
  past its axis, or more indices than axes, raises \<open>IndexError\<close>.
\<close>

fun index_tuple :: "nat list \<Rightarrow> 'a ndarray \<Rightarrow> exn + 'a ndarray" where
  "index_tuple [] a = Inr a"
| "index_tuple (i # idx) a =
     (case shape a of
        [] \<Rightarrow> Inl IndexError
      | d # ds \<Rightarrow>
          if d \<le> i then Inl IndexError
          else index_tuple idx
                 \<lparr>shape = ds, flat = take (prod_list ds) (drop (i * prod_list ds) (flat a))\<rparr>)"

text \<open>
  \<open>max_sample[i]\<close>: a float when \<open>max_sample\<close> is one-dimensional. Indexing a scalar
  raises \<open>IndexError\<close>; an element that is itself an array is not a float value of the
  returned \<open>Dict[str, float]\<close> (\<open>TypeError\<close>).
\<close>

definition item_at :: "'a ndarray \<Rightarrow> nat \<Rightarrow> exn + 'a" where
  "item_at a i =
     (case shape a of
        [] \<Rightarrow> Inl IndexError
      | [d] \<Rightarrow> if i < d \<and> i < length (flat a) then Inr (flat a ! i) else Inl IndexError
      | _ \<Rightarrow> Inl TypeError)"

text \<open>
  The loop that fills the returned dictionary:
  \<^verbatim>\<open>
  for i in range(n_param):
      par_key = dset.attrs[f'parameter{i}']
      par_value = ...
      prob_sample[par_key] = par_value
  \<close>
  \<open>val i\<close> is the value computed for index \<open>i\<close>. A missing attribute raises \<open>KeyError\<close>;
  the keys of the returned dictionary are strings.
\<close>

fun sample_dict_loop ::
  "attrs \<Rightarrow> (nat \<Rightarrow> exn + attr_value) \<Rightarrow> nat list \<Rightarrow> (string \<rightharpoonup> attr_value)
     \<Rightarrow> exn + (string \<rightharpoonup> attr_value)"
where
  "sample_dict_loop ats val [] d = Inr d"
| "sample_dict_loop ats val (i # rest) d =
     (case ats (parameter_key i) of
        None \<Rightarrow> Inl KeyError
      | Some (AStr par_key) \<Rightarrow>
          (case val i of
             Inl e \<Rightarrow> Inl e
           | Inr v \<Rightarrow> sample_dict_loop ats val rest (d(par_key \<mapsto> v)))
      | Some _ \<Rightarrow> Inl TypeError)"

text \<open>
  \<^verbatim>\<open>
  if 'distance' in dset.attrs:
      prob_sample['distance'] = dset.attrs['distance']
  if 'pt_smooth' in dset.attrs:
      prob_sample['pt_smooth'] = dset.attrs['pt_smooth']
  \<close>
\<close>

definition add_extras :: "attrs \<Rightarrow> (string \<rightharpoonup> attr_value) \<Rightarrow> (string \<rightharpoonup> attr_value)" where
  "add_extras ats d =
     (let d1 = (case ats ''distance'' of Some v \<Rightarrow> d(''distance'' \<mapsto> v) | None \<Rightarrow> d)
      in (case ats ''pt_smooth'' of Some v \<Rightarrow> d1(''pt_smooth'' \<mapsto> v) | None \<Rightarrow> d1))"

text \<open>
  The burn-in block of \<open>get_probable_sample\<close> (database.py, lines 1383-1392):
  \<^verbatim>\<open>
  if samples.ndim == 3:
      if burnin > samples.shape[0]:
          raise ValueError(...)
      samples = samples[burnin:, :, :]
      ln_prob = ln_prob[burnin:, :]
      samples = np.reshape(samples, (-1, n_param))
      ln_prob = np.reshape(ln_prob, -1)
  \<close>
  The comparison and both slices are on the first axis. \<open>ln_prob[burnin:, :]\<close> needs
  at least two axes.
\<close>

definition probable_burnin ::
  "real ndarray \<Rightarrow> real ndarray \<Rightarrow> attrs \<Rightarrow> int \<Rightarrow> exn + (real ndarray \<times> real ndarray)"
where
  "probable_burnin samples ln_prob ats burnin =
     (if ndim samples = 3 then
        if burnin > int (shape samples ! 0) then Inl ValueError
        else if ndim ln_prob < 2 then Inl IndexError
        else
          (case as_int (n_param_attr ats) of
             Inl e \<Rightarrow> Inl e
           | Inr n_param \<Rightarrow>
               (case reshape_rows n_param (drop_axis0 burnin samples) of
                  Inl e \<Rightarrow> Inl e
                | Inr samples' \<Rightarrow> Inr (samples', reshape_flat (drop_axis0 burnin ln_prob))))
      else Inr (samples, ln_prob))"

definition get_probable_sample ::
  "real ndarray \<Rightarrow> real ndarray \<Rightarrow> attrs \<Rightarrow> int option \<Rightarrow> exn + (string \<rightharpoonup> attr_value)"
where
  "get_probable_sample samples0 ln_prob0 ats burnin_arg =
     (let burnin = (case burnin_arg of None \<Rightarrow> 0 | Some b \<Rightarrow> b)
      in case probable_burnin samples0 ln_prob0 ats burnin of
           Inl e \<Rightarrow> Inl e
         | Inr (samples, ln_prob) \<Rightarrow>
             (case np_argmax (flat ln_prob) of
                Inl e \<Rightarrow> Inl e
              | Inr k \<Rightarrow>
                  (case index_tuple (unravel_index k (shape ln_prob)) samples of
                     Inl e \<Rightarrow> Inl e
                   | Inr max_sample \<Rightarrow>
                       (case as_int (n_param_attr ats) of
                          Inl e \<Rightarrow> Inl e
                        | Inr n_param \<Rightarrow>
                            (case sample_dict_loop ats
                                    (\<lambda>i. map_sum id AReal (item_at max_sample i))
                                    [0..<nat n_param] Map.empty of
                               Inl e \<Rightarrow> Inl e
                             | Inr d \<Rightarrow> Inr (add_extras ats d))))))"

text \<open>
  The burn-in block of \<open>get_median_sample\<close> (database.py, lines 1452-1460):
  \<^verbatim>\<open>
  if samples.ndim == 3:
      if burnin > samples.shape[0]:
          raise ValueError(...)
      if burnin is not None:
          samples = samples[burnin:, :, :]
      samples = np.reshape(samples, (-1, n_param))
  \<close>
\<close>

definition median_burnin :: "real ndarray \<Rightarrow> attrs \<Rightarrow> int \<Rightarrow> exn + real ndarray" where
  "median_burnin samples ats burnin =
     (if ndim samples = 3 then
        if burnin > int (shape samples ! 0) then Inl ValueError
        else
          (case as_int (n_param_attr ats) of
             Inl e \<Rightarrow> Inl e
           | Inr n_param \<Rightarrow> reshape_rows n_param (drop_axis0 burnin samples))
      else Inr samples)"

text \<open>
  \<open>samples[:, i]\<close>: all elements whose index on the second axis is \<open>i\<close>, in order.
\<close>

definition column :: "'a ndarray \<Rightarrow> nat \<Rightarrow> exn + 'a list" where
  "column a i =
     (case shape a of
        d0 # d1 # ds \<Rightarrow>
          if d1 \<le> i then Inl IndexError
          else Inr (concat (map (\<lambda>r. take (prod_list ds)
                                        (drop ((r * d1 + i) * prod_list ds) (flat a)))
                                [0..<d0]))
      | _ \<Rightarrow> Inl IndexError)"

text \<open>\<open>np.median\<close> of a one-dimensional array; not-a-number on an empty one.\<close>

definition np_median :: "real list \<Rightarrow> attr_value" where
  "np_median xs =
     (if xs = [] then ANaN
      else let s = sort xs; n = length s
           in if odd n then AReal (s ! (n div 2))
              else AReal ((s ! (n div 2 - 1) + s ! (n div 2)) / 2))"

definition get_median_sample ::
  "real ndarray \<Rightarrow> attrs \<Rightarrow> int option \<Rightarrow> exn + (string \<rightharpoonup> attr_value)"
where
  "get_median_sample samples0 ats burnin_arg =
     (let burnin = (case burnin_arg of None \<Rightarrow> 0 | Some b \<Rightarrow> b)
      in case median_burnin samples0 ats burnin of
           Inl e \<Rightarrow> Inl e
         | Inr samples \<Rightarrow>
             (case as_int (n_param_attr ats) of
                Inl e \<Rightarrow> Inl e
              | Inr n_param \<Rightarrow>
                  (case sample_dict_loop ats
                          (\<lambda>i. map_sum id np_median (column samples i))
                          [0..<nat n_param] Map.empty of
                     Inl e \<Rightarrow> Inl e
                   | Inr d \<Rightarrow> Inr (add_extras ats d))))"




section \<open>Derived columns of a posterior sample set: \<open>Database.add_retrieval\<close>\<close>

text \<open>\<open>str(i)\<close> for any integer.\<close>

definition str_int :: "int \<Rightarrow> string" where
  "str_int i = (if i < 0 then CHR ''-'' # str_nat (nat (- i)) else str_nat (nat i))"

text \<open>
  \<open>np.append(samples, col[..., np.newaxis], axis=1)\<close>: both operands must have two axes
  and the same number of rows (\<open>ValueError\<close> otherwise); every row gets its element of
  \<open>col\<close> as a new last entry.
\<close>

definition np_append_column :: "'a ndarray \<Rightarrow> 'a list \<Rightarrow> exn + 'a ndarray" where
  "np_append_column a col =
     (case shape a of
        [n, p] \<Rightarrow>
          if length col \<noteq> n then Inl ValueError
          else Inr \<lparr>shape = [n, Suc p],
                    flat = concat (map (\<lambda>r. take p (drop (r * p) (flat a)) @ [col ! r]) [0..<n])\<rparr>
      | _ \<Rightarrow> Inl ValueError)"

text \<open>
  Each of the three derived-column passes of \<open>add_retrieval\<close> (cloud mass fraction, lines
  2511-2528; quench pressure, lines 2577-2594; effective temperature, lines 2617-2634) ends
  with the same block:
  \<^verbatim>\<open>
  dset_attrs = h5_file[db_tag].attrs
  samples = np.asarray(h5_file[db_tag])
  samples = np.append(samples, col[..., np.newaxis], axis=1)
  del h5_file[db_tag]
  dset = h5_file.create_dataset(db_tag, data=samples)
  for item in dset_attrs:
      dset.attrs[item] = dset_attrs[item]
  n_param = dset_attrs['n_param'] + 1
  dset.attrs['n_param'] = n_param
  dset.attrs[f'parameter{n_param-1}'] = name
  \<close>
  \<open>dset_attrs\<close> stays bound to the dataset that was read, so the loop copies the attributes
  of the old dataset onto the new one. The block is modelled on the dataset (array and
  attributes) found at \<open>db_tag\<close>; the result is the dataset that replaces it. The
  \<open>n_param\<close> attribute is an integer in every dataset the ingestion writes.
\<close>

definition append_derived ::
  "real ndarray \<times> attrs \<Rightarrow> real list \<Rightarrow> string \<Rightarrow> exn + (real ndarray \<times> attrs)"
where
  "append_derived dset col name =
     (case dset of (samples, dset_attrs) \<Rightarrow>
        (case np_append_column samples col of
           Inl e \<Rightarrow> Inl e
         | Inr samples' \<Rightarrow>
             (case dset_attrs ''n_param'' of
                None \<Rightarrow> Inl KeyError
              | Some (AInt n) \<Rightarrow>
                  Inr (samples',
                       dset_attrs(''n_param'' \<mapsto> AInt (n + 1),
                                  ''parameter'' @ str_int (n + 1 - 1) \<mapsto> AStr name))
              | Some _ \<Rightarrow> Inl TypeError)))"

text \<open>
  The names of the appended columns: \<open>f'{cloud_item[:-6].lower()}_fraction'\<close> for a cloud
  species, \<open>'log_p_quench'\<close> and \<open>'teff'\<close>.
\<close>

definition lower_char :: "char \<Rightarrow> char" where
  "lower_char c =
     (if of_char c \<ge> (65 :: nat) \<and> of_char c \<le> (90 :: nat) then char_of (of_char c + (32 :: nat))
      else c)"

definition cloud_fraction_name :: "string \<Rightarrow> string" where
  "cloud_fraction_name cloud_item =
     map lower_char (take (length cloud_item - 6) cloud_item) @ ''_fraction''"

text \<open>
  The passes in the order \<open>add_retrieval\<close> runs them. The derived columns come from the
  forward-model collaborators and are inputs here: one column per cloud species whose
  optical-depth parameter is retrieved, the quench pressures when quenching is by diffusion,
  the effective temperatures when \<open>inc_teff\<close> is set.
\<close>

fun append_all ::
  "real ndarray \<times> attrs \<Rightarrow> (string \<times> real list) list \<Rightarrow> exn + (real ndarray \<times> attrs)"
where
  "append_all dset [] = Inr dset"
| "append_all dset ((name, col) # rest) =
     (case append_derived dset col name of
        Inl e \<Rightarrow> Inl e
      | Inr dset' \<Rightarrow> append_all dset' rest)"

definition retrieval_passes ::
  "real ndarray \<times> attrs \<Rightarrow> (string \<times> real list) list \<Rightarrow> real list option \<Rightarrow> real list option
     \<Rightarrow> exn + (real ndarray \<times> attrs)"
where
  "retrieval_passes dset cloud_mass log_p_quench teff =
     append_all dset
       (map (\<lambda>(cloud_item, col). (cloud_fraction_name cloud_item, col)) cloud_mass
        @ (case log_p_quench of None \<Rightarrow> [] | Some col \<Rightarrow> [(''log_p_quench'', col)])
        @ (case teff of None \<Rightarrow> [] | Some col \<Rightarrow> [(''teff'', col)]))"

section \<open>Isochrone ingestion: \<open>species/data/isochrones.py\<close>\<close>

text \<open>
  The isochrone tables are lists of rows. The functions below start from the numbers parsed
  from the input file (the text parsing and the download are not modelled) and give the array
  stored as \<open>isochrones/{tag}/evolution\<close>. The physical constants of
  \<open>species.core.constants\<close> are parameters.
\<close>

record constants =
  M_SUN :: real
  M_JUP :: real
  R_JUP :: real
  GRAVITY :: real

text \<open>
  \<open>np.argsort(x)\<close> returns a permutation of the indices that puts \<open>x\<close> in ascending
  order; the order among equal elements is left to the sorting algorithm (the default is not
  stable). The function is a parameter \<open>np_argsort\<close> of the ingestion functions below, and
  \<open>is_argsort\<close> is what numpy guarantees of its result; the stable sort is one such
  function. \<open>a[index_sort, :]\<close> takes the rows in the order of the permutation.
\<close>

definition is_argsort :: "real list \<Rightarrow> nat list \<Rightarrow> bool" where
  "is_argsort xs idx \<longleftrightarrow> sort idx = [0..<length xs] \<and> sorted (map (\<lambda>i. xs ! i) idx)"

definition stable_argsort :: "real list \<Rightarrow> nat list" where
  "stable_argsort xs = sort_key (\<lambda>i. xs ! i) [0..<length xs]"

definition take_rows :: "nat list \<Rightarrow> 'a list \<Rightarrow> 'a list" where
  "take_rows idx rows = map (\<lambda>i. rows ! i) idx"

definition rectangular :: "'a list list \<Rightarrow> bool" where
  "rectangular rows \<longleftrightarrow> (\<forall>r \<in> set rows. length r = length (hd rows))"

text \<open>
  \<open>add_manual\<close> (lines 85-113), from the list \<open>isochrones\<close> of parsed rows:
  \<^verbatim>\<open>
  isochrones = np.asarray(isochrones, dtype=float)
  isochrones[:, 0] *= 1e3  # (Myr)
  isochrones[:, 1] *= constants.M_SUN / constants.M_JUP  # (Mjup)
  index_sort = np.argsort(isochrones[:, 0])
  isochrones = isochrones[index_sort, :]
  ...
  database.create_dataset(f"isochrones/{tag}/evolution", data=isochrones[:, 0:8])
  \<close>
  Rows of different lengths cannot be made into a float array (\<open>ValueError\<close>); an empty
  list gives a one-dimensional array, and so does a table without a second column
  (\<open>IndexError\<close> at the column access).
\<close>

definition add_manual ::
  "constants \<Rightarrow> (real list \<Rightarrow> nat list) \<Rightarrow> real list list \<Rightarrow> exn + real list list"
where
  "add_manual c np_argsort isochrones =
     (if isochrones = [] then Inl IndexError
      else if \<not> rectangular isochrones then Inl ValueError
      else if length (hd isochrones) < 2 then Inl IndexError
      else
        let scaled = map (\<lambda>r. r[0 := r ! 0 * 1000, 1 := r ! 1 * (M_SUN c / M_JUP c)]) isochrones;
            index_sort = np_argsort (map (\<lambda>r. r ! 0) scaled);
            sorted_rows = take_rows index_sort scaled
        in Inr (map (take 8) sorted_rows))"

text \<open>
  \<open>add_marleau\<close> (lines 146-164). Each input row is
  \<open>(mass, age, S_0, luminosity, S, radius, teff)\<close>, as \<open>np.loadtxt(..., unpack=True)\<close>
  unpacks the seven columns:
  \<^verbatim>\<open>
  age *= 1e3  # (Myr)
  luminosity = np.log10(luminosity)
  mass_cgs = 1e3 * mass * constants.M_JUP  # (g)
  radius_cgs = 1e2 * radius * constants.R_JUP  # (cm)
  logg = np.log10(1e3 * constants.GRAVITY * mass_cgs / radius_cgs**2)
  isochrones = np.vstack((age, mass, teff, luminosity, logg))
  isochrones = np.transpose(isochrones)
  index_sort = np.argsort(isochrones[:, 0])
  isochrones = isochrones[index_sort, :]
  \<close>
\<close>

definition marleau_row :: "constants \<Rightarrow> real list \<Rightarrow> real list" where
  "marleau_row c r =
     (let mass = r ! 0; age = r ! 1 * 1000; luminosity = log 10 (r ! 3);
          radius = r ! 5; teff = r ! 6;
          mass_cgs = 1000 * mass * M_JUP c;
          radius_cgs = 100 * radius * R_JUP c;
          logg = log 10 (1000 * GRAVITY c * mass_cgs / radius_cgs ^ 2)
      in [age, mass, teff, luminosity, logg])"

definition add_marleau ::
  "constants \<Rightarrow> (real list \<Rightarrow> nat list) \<Rightarrow> real list list \<Rightarrow> exn + real list list"
where
  "add_marleau c np_argsort table =
     (if table = [] \<or> (\<exists>r \<in> set table. length r \<noteq> 7) then Inl ValueError
      else
        let isochrones = map (marleau_row c) table;
            index_sort = np_argsort (map (\<lambda>r. r ! 0) isochrones)
        in Inr (take_rows index_sort isochrones))"

text \<open>
  \<open>add_sonora\<close> (lines 246-268) and \<open>add_saumon\<close> (lines 493-513) run the same loop over
  the lines of each table, with \<open>param\<close> the numbers of a line:
  \<^verbatim>\<open>
  param[0] = 1e3 * param[0]  # (Gyr) -> (Myr)
  param[1] = param[1] * constants.M_SUN / constants.M_JUP
  isochrones.append([param[0], param[1], param[3], param[2], param[4]])
  ...
  database.create_dataset(f"isochrones/sonora{metal}/evolution", data=isochrones)
  \<close>
  The rows are stored in the order of the file.
\<close>

definition sonora_row :: "constants \<Rightarrow> real list \<Rightarrow> exn + real list" where
  "sonora_row c param =
     (if length param < 5 then Inl IndexError
      else Inr [1000 * param ! 0, param ! 1 * M_SUN c / M_JUP c, param ! 3, param ! 2, param ! 4])"

fun sonora_rows :: "constants \<Rightarrow> real list list \<Rightarrow> exn + real list list" where
  "sonora_rows c [] = Inr []"
| "sonora_rows c (param # rest) =
     (case sonora_row c param of
        Inl e \<Rightarrow> Inl e
      | Inr row \<Rightarrow> (case sonora_rows c rest of Inl e \<Rightarrow> Inl e | Inr rows \<Rightarrow> Inr (row # rows)))"

definition add_sonora :: "constants \<Rightarrow> real list list \<Rightarrow> exn + real list list" where
  "add_sonora c lines = sonora_rows c lines"

definition add_saumon :: "constants \<Rightarrow> real list list \<Rightarrow> exn + real list list" where
  "add_saumon c lines = sonora_rows c lines"

text \<open>
  \<open>add_baraffe2015\<close> (lines 560-571). Each input row has the thirteen columns of the track
  file, of which \<open>mass, log_age, teff, log_lum, log_g\<close> are the first five:
  \<^verbatim>\<open>
  age = 1e-6 * 10.0**log_age  # (Myr)
  mass *= constants.M_SUN / constants.M_JUP  # (Msun) -> (Mjup)
  isochrones = np.column_stack([age, mass, teff, log_lum, log_g])
  dset = database.create_dataset(f"isochrones/{db_tag}/evolution", data=isochrones)
  \<close>
\<close>

definition baraffe2015_row :: "constants \<Rightarrow> real list \<Rightarrow> real list" where
  "baraffe2015_row c r =
     [10 powr (r ! 1) / 1000000, r ! 0 * (M_SUN c / M_JUP c), r ! 2, r ! 3, r ! 4]"

definition add_baraffe2015 :: "constants \<Rightarrow> real list list \<Rightarrow> exn + real list list" where
  "add_baraffe2015 c table =
     (if table = [] \<or> (\<exists>r \<in> set table. length r \<noteq> 13) then Inl ValueError
      else Inr (map (baraffe2015_row c) table))"

text \<open>The age column of a stored evolution array, and the invariant of the data model.\<close>

definition ages :: "real list list \<Rightarrow> real list" where
  "ages evolution = map (\<lambda>r. r ! 0) evolution"

definition sorted_by_age :: "real list list \<Rightarrow> bool" where
  "sorted_by_age evolution \<longleftrightarrow> sorted (ages evolution)"

section \<open>Pressure-temperature profiles: \<open>Database.get_pt_profiles\<close>\<close>

text \<open>\<open>np.logspace(a, b, n)\<close>: \<open>n\<close> points from \<open>10**a\<close> to \<open>10**b\<close>, evenly spaced in the exponent.\<close>

definition logspace :: "real \<Rightarrow> real \<Rightarrow> nat \<Rightarrow> real list" where
  "logspace a b n = map (\<lambda>k. 10 powr (a + real k * (b - a) / real (n - 1))) [0..<n]"

text \<open>The rows of a two-dimensional array.\<close>

definition rows_of :: "'a ndarray \<Rightarrow> exn + 'a list list" where
  "rows_of a =
     (case shape a of
        [n, p] \<Rightarrow> Inr (map (\<lambda>r. take p (drop (r * p) (flat a))) [0..<n])
      | _ \<Rightarrow> Inl IndexError)"

text \<open>
  \<^verbatim>\<open>
  param_index = {}
  for i in range(n_param):
      param_index[dset.attrs[f'parameter{i}']] = i
  \<close>
\<close>

fun param_index_loop :: "attrs \<Rightarrow> nat list \<Rightarrow> (string \<rightharpoonup> nat) \<Rightarrow> exn + (string \<rightharpoonup> nat)" where
  "param_index_loop ats [] param_index = Inr param_index"
| "param_index_loop ats (i # rest) param_index =
     (case ats (parameter_key i) of
        None \<Rightarrow> Inl KeyError
      | Some (AStr name) \<Rightarrow> param_index_loop ats rest (param_index(name \<mapsto> i))
      | Some _ \<Rightarrow> Inl TypeError)"

text \<open>
  The knot loop of the \<open>free\<close> and \<open>monotonic\<close> branch (lines 2092-2094), inside the loop
  over the sample index \<open>i\<close>:
  \<^verbatim>\<open>
  knot_temp = []
  for j in range(15):
      knot_temp.append(item[param_index[f't{i}']])
  \<close>
  The key is built from the sample index \<open>i\<close>; the knot index \<open>j\<close> is not used.
\<close>

fun knot_loop ::
  "(string \<rightharpoonup> nat) \<Rightarrow> real list \<Rightarrow> nat \<Rightarrow> nat list \<Rightarrow> real list \<Rightarrow> exn + real list"
where
  "knot_loop param_index item i [] knot_temp = Inr knot_temp"
| "knot_loop param_index item i (j # js) knot_temp =
     (case param_index (''t'' @ str_nat i) of
        None \<Rightarrow> Inl KeyError
      | Some c \<Rightarrow>
          if c < length item then knot_loop param_index item i js (knot_temp @ [item ! c])
          else Inl IndexError)"

text \<open>
  \<open>temp[:, c] = v\<close> on the array \<open>temp\<close> of shape \<open>(n_pressures, n_profiles)\<close>, kept as the
  list of its columns: a column index past the last column raises \<open>IndexError\<close>, and a
  vector that has not one entry per pressure cannot be assigned (\<open>ValueError\<close>).
\<close>

definition set_column :: "real list list \<Rightarrow> nat \<Rightarrow> nat \<Rightarrow> real list \<Rightarrow> exn + real list list" where
  "set_column temp n_press c v =
     (if length temp \<le> c then Inl IndexError
      else if length v \<noteq> n_press then Inl ValueError
      else Inr (temp[c := v]))"

text \<open>
  One iteration of the loop over the samples (lines 2065-2099). The closed-form profile of
  the \<open>molliere\<close> and \<open>mod-molliere\<close> branches and the spline interpolation are collaborators
  (\<open>retrieval_util.pt_ret_model\<close>, \<open>retrieval_util.pt_spline_interp\<close>) and are parameters
  here; \<open>pt_ret_model\<close> stands for the call together with the parameter look-ups of its
  arguments. In the spline branch the result is assigned to \<open>temp[:, j]\<close>, where \<open>j\<close> is
  what the knot loop left in its variable, 14. Any other profile kind leaves \<open>temp\<close> as it is.
\<close>

definition profile_step ::
  "(string \<Rightarrow> (string \<rightharpoonup> nat) \<Rightarrow> real list \<Rightarrow> real list \<Rightarrow> exn + real list)
     \<Rightarrow> (real list \<Rightarrow> real list \<Rightarrow> real list \<Rightarrow> real \<Rightarrow> real list)
     \<Rightarrow> string \<Rightarrow> (string \<rightharpoonup> nat) \<Rightarrow> real list \<Rightarrow> real list \<Rightarrow> nat \<Rightarrow> real list list
     \<Rightarrow> exn + real list list"
where
  "profile_step pt_ret_model pt_spline_interp pt_profile param_index press item i temp =
     (if pt_profile = ''molliere'' \<or> pt_profile = ''mod-molliere'' then
        (case pt_ret_model pt_profile param_index item press of
           Inl e \<Rightarrow> Inl e
         | Inr v \<Rightarrow> set_column temp (length press) i v)
      else if pt_profile \<in> set [''free'', ''monotonic''] then
        (case (case param_index ''pt_smooth'' of
                 Some c \<Rightarrow> if c < length item then Inr (item ! c) else Inl IndexError
               | None \<Rightarrow> Inr 0) of
           Inl e \<Rightarrow> Inl e
         | Inr pt_smooth \<Rightarrow>
             (let knot_press = logspace (log 10 (hd press)) (log 10 (last press)) 15
              in case knot_loop param_index item i [0..<15] [] of
                   Inl e \<Rightarrow> Inl e
                 | Inr knot_temp \<Rightarrow>
                     set_column temp (length press) (last [0..<15])
                       (pt_spline_interp knot_press knot_temp press pt_smooth)))
      else Inr temp)"

fun profile_loop ::
  "(string \<Rightarrow> (string \<rightharpoonup> nat) \<Rightarrow> real list \<Rightarrow> real list \<Rightarrow> exn + real list)
     \<Rightarrow> (real list \<Rightarrow> real list \<Rightarrow> real list \<Rightarrow> real \<Rightarrow> real list)
     \<Rightarrow> string \<Rightarrow> (string \<rightharpoonup> nat) \<Rightarrow> real list \<Rightarrow> real list list \<Rightarrow> nat list
     \<Rightarrow> real list list \<Rightarrow> exn + real list list"
where
  "profile_loop prm spl pt_profile param_index press samples [] temp = Inr temp"
| "profile_loop prm spl pt_profile param_index press samples (i # rest) temp =
     (case profile_step prm spl pt_profile param_index press (samples ! i) i temp of
        Inl e \<Rightarrow> Inl e
      | Inr temp' \<Rightarrow> profile_loop prm spl pt_profile param_index press samples rest temp')"

text \<open>
  \<open>get_pt_profiles\<close> (lines 2026-2110), on the sample array and the attributes read from
  \<open>results/fit/{tag}/samples\<close>. The argument \<open>random\<close> is \<open>None\<close> or the indices drawn by
  \<open>np.random.randint(samples.shape[0], size=random)\<close>. The result is the pressure array
  and the temperature array as the list of its columns. Writing the output file is not
  modelled.
\<close>

definition get_pt_profiles ::
  "(string \<Rightarrow> (string \<rightharpoonup> nat) \<Rightarrow> real list \<Rightarrow> real list \<Rightarrow> exn + real list)
     \<Rightarrow> (real list \<Rightarrow> real list \<Rightarrow> real list \<Rightarrow> real \<Rightarrow> real list)
     \<Rightarrow> real ndarray \<Rightarrow> attrs \<Rightarrow> nat list option \<Rightarrow> exn + (real list \<times> real list list)"
where
  "get_pt_profiles pt_ret_model pt_spline_interp samples0 ats random =
     (case ats ''spectrum'' of
        None \<Rightarrow> Inl KeyError
      | Some spectrum \<Rightarrow>
     (case ats ''pt_profile'' of
        None \<Rightarrow> Inl KeyError
      | Some pt_profile_attr \<Rightarrow>
     if spectrum \<noteq> AStr ''petitradtrans'' then Inl ValueError
     else
     (case rows_of samples0 of
        Inl e \<Rightarrow> Inl e
      | Inr all_rows \<Rightarrow>
     (case (case random of
              None \<Rightarrow> Inr all_rows
            | Some indices \<Rightarrow>
                if list_all (\<lambda>k. k < length all_rows) indices
                then Inr (map (\<lambda>k. all_rows ! k) indices) else Inl IndexError) of
        Inl e \<Rightarrow> Inl e
      | Inr samples \<Rightarrow>
     (let n_profiles = length samples in
      case as_int (n_param_attr ats) of
        Inl e \<Rightarrow> Inl e
      | Inr n_param \<Rightarrow>
     (case param_index_loop ats [0..<nat n_param] Map.empty of
        Inl e \<Rightarrow> Inl e
      | Inr param_index \<Rightarrow>
     (let press = logspace (-6) 3 180;
          temp = replicate n_profiles (replicate (length press) 0);
          pt_profile = (case pt_profile_attr of AStr s \<Rightarrow> s | _ \<Rightarrow> [])
      in case profile_loop pt_ret_model pt_spline_interp pt_profile param_index press samples
                [0..<length samples] temp of
           Inl e \<Rightarrow> Inl e
         | Inr temp' \<Rightarrow> Inr (press, temp'))))))))"

section \<open>Object ingestion: the covariance matrix in \<open>Database.add_object\<close>\<close>

text \<open>
  \<open>np.diag\<close> of a two-dimensional array: the entries \<open>a[i, i]\<close>.
\<close>

definition np_diag :: "'a ndarray \<Rightarrow> 'a list" where
  "np_diag a =
     (case shape a of
        [r, c] \<Rightarrow> map (\<lambda>i. flat a ! (i * c + i)) [0..<min r c]
      | _ \<Rightarrow> [])"

text \<open>
  Modelled from the spec: \<open>data_util.correlation_to_covariance\<close>, which \<open>add_object\<close> calls
  with the matrix read and the flux-error column of the spectrum, is not among the sources.
  The spec says that a correlation matrix (unit diagonal) supplied in place of a covariance
  matrix is converted using the paired flux errors: entry \<open>(i, j)\<close> of the covariance matrix
  is the correlation of points \<open>i\<close> and \<open>j\<close> times the flux errors of the two points. An
  error array shorter than the matrix is an index error.
\<close>

definition correlation_to_covariance :: "real ndarray \<Rightarrow> real list \<Rightarrow> exn + real ndarray" where
  "correlation_to_covariance cor_matrix spec_sigma =
     (case shape cor_matrix of
        [r, c] \<Rightarrow>
          if length spec_sigma < r \<or> length spec_sigma < c then Inl IndexError
          else Inr \<lparr>shape = [r, c],
                    flat = concat (map (\<lambda>i. map (\<lambda>j. flat cor_matrix ! (i * c + j)
                                                        * spec_sigma ! i * spec_sigma ! j) [0..<c])
                                       [0..<r])\<rparr>
      | _ \<Rightarrow> Inl IndexError)"

text \<open>
  The second element of a \<open>spectrum\<close> entry, after the file has been opened: no covariance
  (\<open>None\<close>), a FITS file in the GRAVITY format (its \<open>COVARIANCE\<close> table), another FITS file
  (the data arrays of its HDUs, in order; an HDU without data is an array without axes), or
  an ASCII table read by \<open>np.loadtxt\<close>.
\<close>

datatype cov_file =
    NoCovariance
  | GravityFits "real ndarray"
  | FitsFile "real ndarray list"
  | AsciiFile "real ndarray"

text \<open>
  The conversion both readers apply to a matrix with ones on the diagonal (lines 950-957 and
  979-988; the warning they issue is not modelled):
  \<^verbatim>\<open>
  if np.all(np.diag(data) == 1.):
      warnings.warn(...)
      read_cov[key] = data_util.correlation_to_covariance(data, read_spec[key][:, 2])
  else:
      read_cov[key] = data
  \<close>
\<close>

definition convert_if_correlation :: "real ndarray \<Rightarrow> real ndarray \<Rightarrow> exn + real ndarray" where
  "convert_if_correlation spec data =
     (if list_all (\<lambda>x. x = 1) (np_diag data) then
        (case column spec 2 of
           Inl e \<Rightarrow> Inl e
         | Inr spec_sigma \<Rightarrow> correlation_to_covariance data spec_sigma)
      else Inr data)"

text \<open>
  The loop over the HDUs of a FITS file that is not in the GRAVITY format (lines 940-957):
  \<^verbatim>\<open>
  for i, hdu_item in enumerate(hdulist):
      data = np.asarray(hdu_item.data)
      if data.ndim == 2 and data.shape[0] == data.shape[1]:
          if key not in read_cov:
              if data.shape[0] == read_spec[key].shape[0]:
                  ...
  \<close>
  \<open>read_cov\<close> is the entry of the dictionary for the key, \<open>None\<close> while there is none.
\<close>

fun fits_cov_loop ::
  "real ndarray \<Rightarrow> real ndarray list \<Rightarrow> real ndarray option \<Rightarrow> exn + real ndarray option"
where
  "fits_cov_loop spec [] read_cov = Inr read_cov"
| "fits_cov_loop spec (data # hdulist) read_cov =
     (if ndim data = 2 \<and> shape data ! 0 = shape data ! 1 then
        if read_cov = None then
          if shape data ! 0 = shape spec ! 0 then
            (case convert_if_correlation spec data of
               Inl e \<Rightarrow> Inl e
             | Inr cov \<Rightarrow> fits_cov_loop spec hdulist (Some cov))
          else fits_cov_loop spec hdulist read_cov
        else fits_cov_loop spec hdulist read_cov
      else fits_cov_loop spec hdulist read_cov)"

text \<open>
  Reading the covariance of one spectrum (lines 920-988); \<open>spec\<close> is \<open>read_spec[key]\<close>, the
  spectrum read before. The result is \<open>read_cov[key]\<close>, which is stored as
  \<open>objects/{object_name}/spectrum/{key}/covariance\<close> when it is not \<open>None\<close>. A GRAVITY
  covariance is taken as it is. An ASCII table is rejected unless it has two axes and one of
  them has length 3:
  \<^verbatim>\<open>
  if data.ndim != 2 or 3 not in data.shape:
      raise ValueError(...)
  \<close>
\<close>

definition read_covariance :: "real ndarray \<Rightarrow> cov_file \<Rightarrow> exn + real ndarray option" where
  "read_covariance spec file =
     (case file of
        NoCovariance \<Rightarrow> Inr None
      | GravityFits covariance \<Rightarrow> Inr (Some covariance)
      | FitsFile hdulist \<Rightarrow>
          (case fits_cov_loop spec hdulist None of
             Inl e \<Rightarrow> Inl e
           | Inr None \<Rightarrow> Inl ValueError
           | Inr (Some cov) \<Rightarrow> Inr (Some cov))
      | AsciiFile data \<Rightarrow>
          if ndim data \<noteq> 2 \<or> 3 \<notin> set (shape data) then Inl ValueError
          else
            (case convert_if_correlation spec data of
               Inl e \<Rightarrow> Inl e
             | Inr cov \<Rightarrow> Inr (Some cov)))"

text \<open>An HDU that the FITS loop takes as the covariance of a spectrum with \<open>n\<close> rows.\<close>

definition cov_candidate :: "nat \<Rightarrow> real ndarray \<Rightarrow> bool" where
  "cov_candidate n data \<longleftrightarrow> ndim data = 2 \<and> shape data ! 0 = shape data ! 1 \<and> shape data ! 0 = n"

section \<open>The store: one HDF5 file\<close>

text \<open>
  The store maps a path, the list of the components of a \<open>/\<close>-separated name, to a group or
  to a dataset with its array and attributes. The root is not an entry. Names and tags are
  given as their lists of components. In a store every entry below the root lies in groups.
\<close>

datatype node = Group | Dataset "fnum ndarray" attrs

type_synonym h5file = "string list \<rightharpoonup> node"

definition wf_store :: "h5file \<Rightarrow> bool" where
  "wf_store f \<longleftrightarrow>
     f [] = None \<and> (\<forall>p q. f p \<noteq> None \<longrightarrow> strict_prefix q p \<longrightarrow> q \<noteq> [] \<longrightarrow> f q = Some Group)"

text \<open>\<open>name in h5_file\<close> and \<open>del h5_file[name]\<close>; deleting removes everything below the name.\<close>

definition h5_in :: "h5file \<Rightarrow> string list \<Rightarrow> bool" where
  "h5_in f p \<longleftrightarrow> f p \<noteq> None"

definition h5_del :: "h5file \<Rightarrow> string list \<Rightarrow> h5file" where
  "h5_del f p = (\<lambda>q. if prefix p q then None else f q)"

text \<open>
  \<open>create_group\<close> raises \<open>ValueError\<close> when the name exists or when a dataset stands
  on the way to it; otherwise the groups missing on the way are created with it.
  \<open>create_dataset\<close> of a name with a parent first requires the parent group
  (\<open>self.require_group(parent_path)\<close>): \<open>TypeError\<close> when the parent exists and is a
  dataset, the \<open>ValueError\<close> of \<open>create_group\<close> when the parent cannot be created; then
  \<open>ValueError\<close> when the name exists.
\<close>

definition is_dataset :: "node option \<Rightarrow> bool" where
  "is_dataset n = (case n of Some (Dataset _ _) \<Rightarrow> True | _ \<Rightarrow> False)"

definition blocked :: "h5file \<Rightarrow> string list \<Rightarrow> bool" where
  "blocked f p \<longleftrightarrow> f p \<noteq> None \<or> list_ex (\<lambda>q. is_dataset (f q)) (prefixes p)"

definition h5_put :: "h5file \<Rightarrow> string list \<Rightarrow> node \<Rightarrow> h5file" where
  "h5_put f p nd =
     (\<lambda>q. if q = p then Some nd
          else if q \<noteq> [] \<and> strict_prefix q p \<and> f q = None then Some Group
          else f q)"

definition create_group :: "h5file \<Rightarrow> string list \<Rightarrow> exn + h5file" where
  "create_group f p = (if blocked f p then Inl ValueError else Inr (h5_put f p Group))"

definition create_dataset ::
  "h5file \<Rightarrow> string list \<Rightarrow> fnum ndarray \<Rightarrow> attrs \<Rightarrow> exn + h5file"
where
  "create_dataset f p data ats =
     (if butlast p \<noteq> [] \<and> is_dataset (f (butlast p)) then Inl TypeError
      else if blocked f p then Inl ValueError
      else Inr (h5_put f p (Dataset data ats)))"

text \<open>
  \<^verbatim>\<open>
  if name not in h5_file:
      h5_file.create_group(name)
  \<close>
\<close>

definition require_group :: "h5file \<Rightarrow> string list \<Rightarrow> exn + h5file" where
  "require_group f p = (if \<not> h5_in f p then create_group f p else Inr f)"

text \<open>
  \<^verbatim>\<open>
  if name in h5_file:
      del h5_file[name]
  \<close>
\<close>

definition delete_if_present :: "h5file \<Rightarrow> string list \<Rightarrow> h5file" where
  "delete_if_present f p = (if h5_in f p then h5_del f p else f)"

text \<open>No dataset stands at a proper ancestor of the path \<open>p\<close>.\<close>

definition way_free :: "h5file \<Rightarrow> string list \<Rightarrow> bool" where
  "way_free f p \<longleftrightarrow> \<not> list_ex (\<lambda>q. is_dataset (f q)) (butlast (prefixes p))"

section \<open>Ingestion into the store: \<open>add_filter\<close> and \<open>add_samples\<close>\<close>

text \<open>\<open>np.column_stack((wavel_new, transm_new))\<close>: the two lists as the columns of an array.\<close>

definition column_stack :: "real list \<Rightarrow> real list \<Rightarrow> real ndarray" where
  "column_stack a b = \<lparr>shape = [length a, 2], flat = concat (map2 (\<lambda>x y. [x, y]) a b)\<rparr>"

text \<open>
  \<open>add_filter\<close> (lines 261-297) on the store. \<open>filter_name\<close> is the list of the components
  of the name (\<open>filter_name.split('/')\<close>), \<open>wavelength\<close> and \<open>transmission\<close> are what the
  file or the download gave (\<open>None\<close> when the download found no profile). A store operation
  or the collapse loop that raises ends the call; the store is left as it is at that moment,
  and the result is the exception together with the store.
  \<^verbatim>\<open>
  if f'filters/{filter_name}' in h5_file:
      del h5_file[f'filters/{filter_name}']
  if 'filters' not in h5_file:
      h5_file.create_group('filters')
  if f'filters/{filter_split[0]}' not in h5_file:
      h5_file.create_group(f'filters/{filter_split[0]}')
  ...
  if wavelength is not None and transmission is not None:
      ...
      dset = h5_file.create_dataset(f'filters/{filter_name}',
                                    data=np.column_stack((wavel_new, transm_new)))
      dset.attrs['det_type'] = str(detector_type)
  \<close>
\<close>

definition add_filter ::
  "h5file \<Rightarrow> string list \<Rightarrow> real list option \<Rightarrow> real list option \<Rightarrow> string
     \<Rightarrow> exn option \<times> h5file"
where
  "add_filter h5_file filter_name wavelength transmission detector_type =
     (let path = ''filters'' # filter_name;
          f1 = delete_if_present h5_file path
      in case require_group f1 [''filters''] of
           Inl e \<Rightarrow> (Some e, f1)
         | Inr f2 \<Rightarrow>
             (case require_group f2 (''filters'' # take 1 filter_name) of
                Inl e \<Rightarrow> (Some e, f2)
              | Inr f3 \<Rightarrow>
                  (case wavelength of
                     None \<Rightarrow> (None, f3)
                   | Some w \<Rightarrow>
                       (case transmission of
                          None \<Rightarrow> (None, f3)
                        | Some t \<Rightarrow>
                            (case filter_columns w t of
                               Inl e \<Rightarrow> (Some e, f3)
                             | Inr (wavel_new, transm_new) \<Rightarrow>
                                 (case create_dataset f3 path
                                         (float_array (column_stack wavel_new transm_new))
                                         [''det_type'' \<mapsto> AStr detector_type] of
                                    Inl e \<Rightarrow> (Some e, f3)
                                  | Inr f4 \<Rightarrow> (None, f4)))))))"






section \<open>Ingestion in two halves\<close>

text \<open>
  \<open>add_filter\<close> and \<open>add_samples\<close> cut at the point where the groups exist and the old
  entity is gone; lemmas \<open>add_filter_split\<close> and \<open>add_samples_split\<close> show that the halves
  compose to the functions above.
\<close>


text \<open>
  The first half of \<open>add_filter\<close>, the three statements that prepare the groups:
  \<^verbatim>\<open>
  if f'filters/{filter_name}' in h5_file:
      del h5_file[f'filters/{filter_name}']
  if 'filters' not in h5_file:
      h5_file.create_group('filters')
  if f'filters/{filter_split[0]}' not in h5_file:
      h5_file.create_group(f'filters/{filter_split[0]}')
  \<close>
  An error carries the store at the point of the raise.
\<close>

definition filter_prep :: "h5file \<Rightarrow> string list \<Rightarrow> (exn \<times> h5file) + h5file" where
  "filter_prep f filter_name =
     (let f1 = delete_if_present f (''filters'' # filter_name)
      in case require_group f1 [''filters''] of
           Inl e \<Rightarrow> Inl (e, f1)
         | Inr f2 \<Rightarrow>
             (case require_group f2 (''filters'' # take 1 filter_name) of
                Inl e \<Rightarrow> Inl (e, f2)
              | Inr f3 \<Rightarrow> Inr f3))"

text \<open>
  Nothing is stored at path \<open>p\<close> or below it.
\<close>

definition clean :: "h5file \<Rightarrow> string list \<Rightarrow> bool" where
  "clean g p \<longleftrightarrow> (\<forall>q. prefix p q \<longrightarrow> g q = None)"

text \<open>
  The second half of \<open>add_filter\<close>: the columns are filtered and the dataset is written,
  from \<^verbatim>\<open>if wavelength is not None and transmission is not None:\<close> to
  \<^verbatim>\<open>dset.attrs['det_type'] = str(detector_type)\<close>.
\<close>

definition filter_write ::
  "h5file \<Rightarrow> string list \<Rightarrow> real list option \<Rightarrow> real list option \<Rightarrow> string
     \<Rightarrow> exn option \<times> h5file"
where
  "filter_write f3 filter_name wavelength transmission detector_type =
     (case wavelength of
        None \<Rightarrow> (None, f3)
      | Some w \<Rightarrow>
          (case transmission of
             None \<Rightarrow> (None, f3)
           | Some t \<Rightarrow>
               (case filter_columns w t of
                  Inl e \<Rightarrow> (Some e, f3)
                | Inr (wavel_new, transm_new) \<Rightarrow>
                    (case create_dataset f3 (''filters'' # filter_name)
                            (float_array (column_stack wavel_new transm_new))
                            [''det_type'' \<mapsto> AStr detector_type] of
                       Inl e \<Rightarrow> (Some e, f3)
                     | Inr f4 \<Rightarrow> (None, f4)))))"



section \<open>Isochrones in the store\<close>

text \<open>\<open>np.column_stack\<close> of the columns of a table given by its rows.\<close>

definition rows_array :: "real list list \<Rightarrow> real ndarray" where
  "rows_array rows = \<lparr>shape = [length rows, length (hd rows)], flat = concat rows\<rparr>"

text \<open>
  \<open>add_baraffe2015\<close> with its database (lines 560-573): the array above is written with
  \<open>create_dataset\<close>; nothing is deleted before.
  \<^verbatim>\<open>
  dset = database.create_dataset(f"isochrones/{db_tag}/evolution", data=isochrones)
  dset.attrs["model"] = "baraffe2015"
  \<close>
\<close>

definition add_baraffe2015_store ::
  "h5file \<Rightarrow> constants \<Rightarrow> real list list \<Rightarrow> exn option \<times> h5file"
where
  "add_baraffe2015_store database c table =
     (case add_baraffe2015 c table of
        Inl e \<Rightarrow> (Some e, database)
      | Inr isochrones \<Rightarrow>
          (case create_dataset database [''isochrones'', ''baraffe2015'', ''evolution'']
                  (float_array (rows_array isochrones)) [''model'' \<mapsto> AStr ''baraffe2015''] of
             Inl e \<Rightarrow> (Some e, database)
           | Inr f \<Rightarrow> (None, f)))"

section \<open>Object ingestion: apparent magnitudes in \<open>Database.add_object\<close>\<close>

text \<open>
  The value of an \<open>app_mag\<close> entry is a pair (magnitude, uncertainty) or a list of such
  pairs (the argument is type-checked, so the final \<open>else: raise ValueError\<close> of the first
  loop is not reached); \<open>deredden\<close> is a float, applied to every filter, or a dictionary from
  names to the visual extinction (empty when the argument is \<open>None\<close>). Filter names and the
  object name are given as their lists of components, as in \<open>add_filter\<close>.
\<close>

datatype mag_value = Single real real | Multiple "(real \<times> real) list"

datatype deredden = DereddenAll real | DereddenMap "string list \<rightharpoonup> real"

text \<open>
  The collaborators of \<open>add_object\<close> that are not part of the two modules, as parameters:
  the wavelengths of a filter profile (\<open>read_filter.ReadFilter(name).get_filter()[:, 0]\<close>),
  the extinction law (\<open>dust_util.ism_extinction\<close>), the two conversions of
  \<open>photometry.SyntheticPhotometry(name)\<close> (each standing for the construction of the object
  together with the call), the download of a filter profile (\<open>filters.download_filter\<close>),
  and the functions that write a spectral library into the database (\<open>vega.add_vega\<close>,
  \<open>irtf.add_irtf\<close>, ...). A collaborator that raises returns \<open>Inl\<close>. The warnings recorded
  below are those \<open>add_object\<close> itself issues.
\<close>

record services =
  get_filter :: "string list \<Rightarrow> exn + real list"
  ism_extinction :: "real \<Rightarrow> real \<Rightarrow> real list \<Rightarrow> real list"
  spectrum_to_flux :: "string list \<Rightarrow> real list \<Rightarrow> real list \<Rightarrow> exn + real"
  magnitude_to_flux :: "string list \<Rightarrow> real \<Rightarrow> real \<Rightarrow> exn + (real \<times> real)"
  download_filter :: "string list \<Rightarrow> exn + (real list option \<times> real list option \<times> string)"
  add_library :: "string \<Rightarrow> h5file \<Rightarrow> exn + h5file"

text \<open>
  \<open>add_spectra\<close> (lines 1217-1244):
  \<^verbatim>\<open>
  if 'spectra' not in h5_file:
      h5_file.create_group('spectra')
  if 'spectra/'+spec_library in h5_file:
      del h5_file['spectra/'+spec_library]
  if spec_library[0:5] == 'vega':
      vega.add_vega(self.input_path, h5_file)
  elif spec_library[0:5] == 'irtf':
      ...
  \<close>
  \<open>spectral_library\<close> is the branch taken.
\<close>

definition spectral_library :: "string \<Rightarrow> string option" where
  "spectral_library spec_library =
     (if take 5 spec_library = ''vega'' then Some ''vega''
      else if take 5 spec_library = ''irtf'' then Some ''irtf''
      else if take 5 spec_library = ''spex'' then Some ''spex''
      else if take 12 spec_library = ''kesseli+2017'' then Some ''kesseli+2017''
      else if take 13 spec_library = ''bonnefoy+2014'' then Some ''bonnefoy+2014''
      else if take 11 spec_library = ''allers+2013'' then Some ''allers+2013''
      else None)"

definition add_spectra :: "services \<Rightarrow> h5file \<Rightarrow> string \<Rightarrow> exn option \<times> h5file" where
  "add_spectra sv h5_file spec_library =
     (case require_group h5_file [''spectra''] of
        Inl e \<Rightarrow> (Some e, h5_file)
      | Inr f1 \<Rightarrow>
          (let f2 = delete_if_present f1 [''spectra'', spec_library]
           in case spectral_library spec_library of
                None \<Rightarrow> (None, f2)
              | Some lib \<Rightarrow>
                  (case add_library sv lib f2 of
                     Inl e \<Rightarrow> (Some e, f2)
                   | Inr f3 \<Rightarrow> (None, f3))))"

text \<open>
  \<open>add_filter(filter_name)\<close> with \<open>filename=None\<close>: the profile and the detector type
  come from \<open>filters.download_filter(filter_name)\<close> (line 280), called after the groups are
  prepared; when the download raises, the store is left as prepared.
\<close>

definition add_filter_download :: "services \<Rightarrow> h5file \<Rightarrow> string list \<Rightarrow> exn option \<times> h5file" where
  "add_filter_download sv h5_file filter_name =
     (case download_filter sv filter_name of
        Inr (wavelength, transmission, detector_type) \<Rightarrow>
          add_filter h5_file filter_name wavelength transmission detector_type
      | Inl e \<Rightarrow>
          (case filter_prep h5_file filter_name of
             Inl (e', s) \<Rightarrow> (Some e', s)
           | Inr f3 \<Rightarrow> (Some e, f3)))"

text \<open>
  The start of \<open>add_object\<close> when \<open>app_mag\<close> is given (lines 630-636):
  \<^verbatim>\<open>
  if app_mag is not None:
      if 'spectra/calibration/vega' not in h5_file:
          self.add_spectra('vega')
      for item in app_mag:
          if f'filters/{item}' not in h5_file:
              self.add_filter(item)
  \<close>
\<close>

fun prefetch_filters :: "services \<Rightarrow> h5file \<Rightarrow> string list list \<Rightarrow> exn option \<times> h5file" where
  "prefetch_filters sv f [] = (None, f)"
| "prefetch_filters sv f (item # rest) =
     (if \<not> h5_in f (''filters'' # item) then
        (case add_filter_download sv f item of
           (Some e, f1) \<Rightarrow> (Some e, f1)
         | (None, f1) \<Rightarrow> prefetch_filters sv f1 rest)
      else prefetch_filters sv f rest)"

definition prefetch :: "services \<Rightarrow> h5file \<Rightarrow> string list list \<Rightarrow> exn option \<times> h5file" where
  "prefetch sv f items =
     (case (if \<not> h5_in f [''spectra'', ''calibration'', ''vega'']
            then add_spectra sv f ''vega'' else (None, f)) of
        (Some e, f1) \<Rightarrow> (Some e, f1)
      | (None, f1) \<Rightarrow> prefetch_filters sv f1 items)"

text \<open>
  Lines 654-661:
  \<^verbatim>\<open>
  if distance is not None:
      if f'objects/{object_name}/distance' in h5_file:
          del h5_file[f'objects/{object_name}/distance']
      h5_file.create_dataset(f'objects/{object_name}/distance', data=distance)
  \<close>
\<close>

definition write_distance ::
  "h5file \<Rightarrow> string list \<Rightarrow> (real \<times> real) option \<Rightarrow> exn option \<times> h5file"
where
  "write_distance f object_name distance =
     (case distance of
        None \<Rightarrow> (None, f)
      | Some (d, e) \<Rightarrow>
          (let path = ''objects'' # object_name @ [''distance''];
               f1 = delete_if_present f path
           in case create_dataset f1 path \<lparr>shape = [2], flat = [Num d, Num e]\<rparr> Map.empty of
                Inl x \<Rightarrow> (Some x, f1)
              | Inr f2 \<Rightarrow> (None, f2)))"

text \<open>
  The dereddening factor of a filter (lines 669-686):
  \<^verbatim>\<open>
  if isinstance(deredden, float) or mag_item in deredden:
      read_filt = read_filter.ReadFilter(mag_item)
      filter_profile = read_filt.get_filter()
      if isinstance(deredden, float):
          ext_mag = dust_util.ism_extinction(deredden, 3.1, filter_profile[:, 0])
      else:
          ext_mag = dust_util.ism_extinction(deredden[mag_item], 3.1, filter_profile[:, 0])
      synphot = photometry.SyntheticPhotometry(mag_item)
      dered_phot[mag_item], _ = synphot.spectrum_to_flux(filter_profile[:, 0],
                                                         10.**(0.4*ext_mag))
  else:
      dered_phot[mag_item] = 1.
  \<close>
  This block is outside the \<open>try\<close>: an exception of a collaborator here ends the call.
\<close>

definition dered_factor :: "services \<Rightarrow> deredden \<Rightarrow> string list \<Rightarrow> exn + real" where
  "dered_factor sv dered mag_item =
     (case (case dered of DereddenAll a_v \<Rightarrow> Some a_v | DereddenMap d \<Rightarrow> d mag_item) of
        None \<Rightarrow> Inr 1
      | Some a_v \<Rightarrow>
          (case get_filter sv mag_item of
             Inl e \<Rightarrow> Inl e
           | Inr wavel \<Rightarrow>
               spectrum_to_flux sv mag_item wavel
                 (map (\<lambda>x. 10 powr (4 / 10 * x)) (ism_extinction sv a_v (31 / 10) wavel))))"

text \<open>
  The conversion of one magnitude (lines 690-706, and 714-731 for an element of a list):
  \<^verbatim>\<open>
  try:
      synphot = photometry.SyntheticPhotometry(mag_item)
      flux[mag_item], error[mag_item] = synphot.magnitude_to_flux(
          app_mag[mag_item][0], app_mag[mag_item][1])
      flux[mag_item] *= dered_phot[mag_item]
  except KeyError:
      warnings.warn(f'Filter \'{mag_item}\' is not available ...')
      # Write NaNs if the filter is not available
      flux[mag_item], error[mag_item] = np.nan, np.nan
  \<close>
  The result is the list of warnings issued (each warning is recorded by the name of its
  filter), together with the flux and its error or the exception that is not caught.
\<close>

definition try_magnitude_to_flux ::
  "services \<Rightarrow> string list \<Rightarrow> real \<Rightarrow> real \<times> real \<Rightarrow> string list list \<times> (exn + (fnum \<times> fnum))"
where
  "try_magnitude_to_flux sv mag_item dered_phot m =
     (case magnitude_to_flux sv mag_item (fst m) (snd m) of
        Inr (flux, error) \<Rightarrow> ([], Inr (Num (flux * dered_phot), Num error))
      | Inl e \<Rightarrow> if e = KeyError then ([mag_item], Inr (NaN, NaN)) else ([], Inl e))"

text \<open>The loop over the elements of a list of magnitudes (lines 712-737).\<close>

fun dupl_loop ::
  "services \<Rightarrow> string list \<Rightarrow> real \<Rightarrow> (real \<times> real) list
     \<Rightarrow> string list list \<times> (exn + (fnum list \<times> fnum list))"
where
  "dupl_loop sv mag_item dered_phot [] = ([], Inr ([], []))"
| "dupl_loop sv mag_item dered_phot (dupl_item # rest) =
     (case try_magnitude_to_flux sv mag_item dered_phot dupl_item of
        (w, Inl e) \<Rightarrow> (w, Inl e)
      | (w, Inr (flux_dupl, error_dupl)) \<Rightarrow>
          (case dupl_loop sv mag_item dered_phot rest of
             (ws, Inl e) \<Rightarrow> (w @ ws, Inl e)
           | (ws, Inr (flux_list, error_list)) \<Rightarrow>
               (w @ ws, Inr (flux_dupl # flux_list, error_dupl # error_list))))"

text \<open>
  One pass of the first loop (lines 668-742): the dereddening factor, then the fluxes and
  errors of the entry (lists of one element for a pair). \<open>convert_loop\<close> is the loop; it stops
  at the first exception, with the warnings issued until then.
\<close>

definition convert_entry ::
  "services \<Rightarrow> deredden \<Rightarrow> string list \<Rightarrow> mag_value
     \<Rightarrow> string list list \<times> (exn + (real \<times> fnum list \<times> fnum list))"
where
  "convert_entry sv dered mag_item v =
     (case dered_factor sv dered mag_item of
        Inl e \<Rightarrow> ([], Inl e)
      | Inr dered_phot \<Rightarrow>
          (case v of
             Single mag err \<Rightarrow>
               (case try_magnitude_to_flux sv mag_item dered_phot (mag, err) of
                  (w, Inl e) \<Rightarrow> (w, Inl e)
                | (w, Inr (flux, error)) \<Rightarrow> (w, Inr (dered_phot, [flux], [error])))
           | Multiple dupl \<Rightarrow>
               (case dupl_loop sv mag_item dered_phot dupl of
                  (w, Inl e) \<Rightarrow> (w, Inl e)
                | (w, Inr (flux_list, error_list)) \<Rightarrow>
                    (w, Inr (dered_phot, flux_list, error_list)))))"

fun convert_loop ::
  "services \<Rightarrow> deredden \<Rightarrow> (string list \<times> mag_value) list
     \<Rightarrow> string list list \<times> (exn + (real \<times> fnum list \<times> fnum list) list)"
where
  "convert_loop sv dered [] = ([], Inr [])"
| "convert_loop sv dered ((mag_item, v) # rest) =
     (case convert_entry sv dered mag_item v of
        (w, Inl e) \<Rightarrow> (w, Inl e)
      | (w, Inr c) \<Rightarrow>
          (case convert_loop sv dered rest of
             (ws, Inl e) \<Rightarrow> (w @ ws, Inl e)
           | (ws, Inr cs) \<Rightarrow> (w @ ws, Inr (c # cs))))"

text \<open>
  The data and \<open>n_phot\<close> of the dataset the second loop writes for an entry (lines
  748-802): for a pair \<open>[magnitude, uncertainty, flux, error]\<close>, for a list the four rows of
  magnitudes, uncertainties, fluxes and errors; the magnitudes are dereddened
  (\<open>app_mag - 2.5*np.log10(dered_phot)\<close>, with \<open>dered_phot\<close> a positive flux ratio).
\<close>

definition photometry_data ::
  "mag_value \<Rightarrow> real \<times> fnum list \<times> fnum list \<Rightarrow> fnum ndarray \<times> nat"
where
  "photometry_data v c =
     (case c of (dered_phot, flux, error) \<Rightarrow>
        (case v of
           Single mag err \<Rightarrow>
             (\<lparr>shape = [4],
               flat = [Num (mag - 5 / 2 * log 10 dered_phot), Num err] @ flux @ error\<rparr>, 1)
         | Multiple dupl \<Rightarrow>
             (\<lparr>shape = [4, length dupl],
               flat = map (\<lambda>m. Num (fst m - 5 / 2 * log 10 dered_phot)) dupl
                      @ map (\<lambda>m. Num (snd m)) dupl @ flux @ error\<rparr>, length dupl)))"

definition photometry_entries ::
  "(string list \<times> mag_value) list \<Rightarrow> (real \<times> fnum list \<times> fnum list) list
     \<Rightarrow> (string list \<times> fnum ndarray \<times> nat) list"
where
  "photometry_entries app_mag cs =
     map2 (\<lambda>(mag_item, v) c. (mag_item, photometry_data v c)) app_mag cs"

text \<open>
  The second loop (lines 744-808), one step per entry:
  \<^verbatim>\<open>
  if f'objects/{object_name}/{mag_item}' in h5_file:
      del h5_file[f'objects/{object_name}/{mag_item}']
  ...
  dset = h5_file.create_dataset(f'objects/{object_name}/{mag_item}', data=data)
  dset.attrs['n_phot'] = n_phot
  \<close>
\<close>

fun write_photometry ::
  "h5file \<Rightarrow> string list \<Rightarrow> (string list \<times> fnum ndarray \<times> nat) list \<Rightarrow> exn option \<times> h5file"
where
  "write_photometry f object_name [] = (None, f)"
| "write_photometry f object_name ((mag_item, data, n_phot) # rest) =
     (let path = ''objects'' # object_name @ mag_item;
          f1 = delete_if_present f path
      in case create_dataset f1 path data [''n_phot'' \<mapsto> AInt (int n_phot)] of
           Inl e \<Rightarrow> (Some e, f1)
         | Inr f2 \<Rightarrow> write_photometry f2 object_name rest)"

text \<open>
  \<open>add_object\<close> (lines 625-808) with \<open>app_mag\<close> given (the list of the items of the
  dictionary, in order) and \<open>flux_density\<close> and \<open>spectrum\<close> left \<open>None\<close>: the filters and
  the Vega spectrum are fetched, the groups \<open>objects\<close> and \<open>objects/{object_name}\<close> are
  created when missing, the distance is written, all magnitudes are converted, and the
  datasets are written. The result is the exception raised (if any), the warnings issued,
  and the store.
\<close>

definition add_object ::
  "services \<Rightarrow> h5file \<Rightarrow> string list \<Rightarrow> (real \<times> real) option
     \<Rightarrow> (string list \<times> mag_value) list \<Rightarrow> deredden
     \<Rightarrow> exn option \<times> string list list \<times> h5file"
where
  "add_object sv h5_file object_name distance app_mag dered =
     (case prefetch sv h5_file (map fst app_mag) of
        (Some e, f) \<Rightarrow> (Some e, [], f)
      | (None, f0) \<Rightarrow>
          (case require_group f0 [''objects''] of
             Inl e \<Rightarrow> (Some e, [], f0)
           | Inr f1 \<Rightarrow>
               (case require_group f1 (''objects'' # object_name) of
                  Inl e \<Rightarrow> (Some e, [], f1)
                | Inr f2 \<Rightarrow>
                    (case write_distance f2 object_name distance of
                       (Some e, f3) \<Rightarrow> (Some e, [], f3)
                     | (None, f3) \<Rightarrow>
                         (case convert_loop sv dered app_mag of
                            (ws, Inl e) \<Rightarrow> (Some e, ws, f3)
                          | (ws, Inr cs) \<Rightarrow>
                              (case write_photometry f3 object_name
                                      (photometry_entries app_mag cs) of
                                 (out, f4) \<Rightarrow> (out, ws, f4)))))))"

text \<open>
  Preconditions of the photometry, as predicates on the arguments and the store. No
  collaborator fails outside what the \<open>try\<close> catches: the dereddening factor of every
  filter is computed, and a magnitude conversion returns or raises \<open>KeyError\<close>.
\<close>

definition returns :: "exn + 'a \<Rightarrow> bool" where
  "returns r = (case r of Inr _ \<Rightarrow> True | Inl _ \<Rightarrow> False)"



text \<open>
  The filter is in the store, or its download returns and \<open>add_filter\<close> can store what it
  returns: no profile, or a profile for a name of at least two components on which the
  collapse loop returns.
\<close>

definition download_ready :: "services \<Rightarrow> h5file \<Rightarrow> string list \<Rightarrow> bool" where
  "download_ready sv f item \<longleftrightarrow>
     h5_in f (''filters'' # item)
     \<or> (case download_filter sv item of
          Inl e \<Rightarrow> False
        | Inr (wavelength, transmission, detector_type) \<Rightarrow>
            (case wavelength of
               None \<Rightarrow> True
             | Some w \<Rightarrow>
                 (case transmission of
                    None \<Rightarrow> True
                  | Some t \<Rightarrow> 2 \<le> length item \<and> returns (filter_columns w t))))"

text \<open>
  An operation on the store that returns on every well-formed store, leaves it well-formed
  and changes nothing outside the group \<open>p\<close>; the Vega spectrum is in the store or
  \<open>vega.add_vega\<close> is such an operation on \<open>spectra\<close>.
\<close>

definition confined :: "(h5file \<Rightarrow> exn + h5file) \<Rightarrow> string list \<Rightarrow> bool" where
  "confined op p \<longleftrightarrow>
     (\<forall>g. wf_store g \<longrightarrow>
        (\<exists>g'. op g = Inr g' \<and> wf_store g' \<and> (\<forall>q. \<not> prefix p q \<longrightarrow> g' q = g q)))"

definition vega_ready :: "services \<Rightarrow> h5file \<Rightarrow> bool" where
  "vega_ready sv f \<longleftrightarrow>
     h5_in f [''spectra'', ''calibration'', ''vega'']
     \<or> confined (add_library sv ''vega'') [''spectra'']"

text \<open>
  No name of the list continues another one as a path, and no dataset stands on the way to
  the filter or to the photometry of any name.
\<close>

definition prefix_free :: "string list list \<Rightarrow> bool" where
  "prefix_free items \<longleftrightarrow> list_all (\<lambda>i. list_all (\<lambda>j. \<not> strict_prefix i j) items) items"


section \<open>Stores and arguments of the examples\<close>



text \<open>
  Collaborators for which the filter \<open>Fake/Filter\<close> cannot be resolved: its conversion raises
  \<open>KeyError\<close>, no profile can be read or downloaded; every other magnitude converts.
\<close>

definition example_services :: services where
  "example_services =
     \<lparr>get_filter = (\<lambda>n. Inl KeyError), ism_extinction = (\<lambda>a r w. w),
      spectrum_to_flux = (\<lambda>n w x. Inr 1),
      magnitude_to_flux = (\<lambda>n m e. if n = [''Fake'', ''Filter''] then Inl KeyError else Inr (m, e)),
      download_filter = (\<lambda>n. Inr (None, None, ''photon'')),
      add_library = (\<lambda>l g. Inr g)\<rparr>"

section \<open>Verification: filter ingestion\<close>




lemma filter_loop_lengths:
  "filter_loop ws ts wn tn = Inr (wn', tn') \<Longrightarrow> length wn = length tn
     \<Longrightarrow> length wn' = length tn'"
  by (induction ws ts wn tn rule: filter_loop.induct) (auto split: if_splits list.splits)



section \<open>Verification: posterior accessors\<close>















text \<open>
  C2. The code at a sample array of shape \<open>(10, 50, 3)\<close>: \<open>burnin=60\<close> raises
  \<open>ValueError\<close> in both accessors (60 exceeds the first dimension, 10). With \<open>burnin=10\<close>
  the comparison \<open>burnin > samples.shape[0]\<close> is false, the slice \<open>samples[burnin:, :, :]\<close>
  removes all 10 entries of the first axis, and the flattened array has 0 rows, not
  \<open>10*(50-10) = 400\<close>; \<open>get_probable_sample\<close> then raises \<open>ValueError\<close> at \<open>argmax\<close> of
  an empty array.
\<close>

theorem burnin_first_axis:
  "probable_burnin \<lparr>shape = [10, 50, 3], flat = replicate 1500 0\<rparr>
       \<lparr>shape = [10, 50], flat = replicate 500 0\<rparr> [''n_param'' \<mapsto> AInt 3] 60 = Inl ValueError
   \<and> median_burnin \<lparr>shape = [10, 50, 3], flat = replicate 1500 0\<rparr> [''n_param'' \<mapsto> AInt 3] 60
       = Inl ValueError
   \<and> probable_burnin \<lparr>shape = [10, 50, 3], flat = replicate 1500 0\<rparr>
       \<lparr>shape = [10, 50], flat = replicate 500 0\<rparr> [''n_param'' \<mapsto> AInt 3] 10
       = Inr (\<lparr>shape = [0, 3], flat = []\<rparr>, \<lparr>shape = [0], flat = []\<rparr>)
   \<and> median_burnin \<lparr>shape = [10, 50, 3], flat = replicate 1500 0\<rparr> [''n_param'' \<mapsto> AInt 3] 10
       = Inr \<lparr>shape = [0, 3], flat = []\<rparr>
   \<and> get_probable_sample \<lparr>shape = [10, 50, 3], flat = replicate 1500 0\<rparr>
       \<lparr>shape = [10, 50], flat = replicate 500 0\<rparr> [''n_param'' \<mapsto> AInt 3] (Some 10)
       = Inl ValueError"
  by (simp add: probable_burnin_def median_burnin_def get_probable_sample_def ndim_def
      as_int_def n_param_attr_def reshape_rows_def reshape_flat_def drop_axis0_def
      slice_start_def np_argmax_def)

text \<open>
  C10. For a two-dimensional stored sample array the \<open>burnin\<close> argument has no effect
  on either accessor: the burn-in block returns the arrays as they are (nothing is discarded,
  nothing is validated), and the result for any \<open>burnin\<close> is the result for \<open>burnin=None\<close>.
\<close>

theorem burnin_ignored_2d:
  assumes "ndim samples = 2"
  shows "get_probable_sample samples ln_prob ats burnin = get_probable_sample samples ln_prob ats None
       \<and> get_median_sample samples ats burnin = get_median_sample samples ats None
       \<and> probable_burnin samples ln_prob ats (case burnin of None \<Rightarrow> 0 | Some b \<Rightarrow> b)
           = Inr (samples, ln_prob)
       \<and> median_burnin samples ats (case burnin of None \<Rightarrow> 0 | Some b \<Rightarrow> b) = Inr samples"
  using assms
  by (simp add: get_probable_sample_def get_median_sample_def probable_burnin_def
      median_burnin_def)

theorem burnin_ignored_2d_witness:
  "ndim \<lparr>shape = [2, 2], flat = [1000, 4, 1200, 5 :: real]\<rparr> = 2
   \<and> get_median_sample \<lparr>shape = [2, 2], flat = [1000, 4, 1200, 5]\<rparr>
         [''n_param'' \<mapsto> AInt 2, ''parameter0'' \<mapsto> AStr ''teff'',
          ''parameter1'' \<mapsto> AStr ''logg''] (Some 7)
       = Inr [''teff'' \<mapsto> AReal 1100, ''logg'' \<mapsto> AReal (9 / 2)]
   \<and> get_probable_sample \<lparr>shape = [2, 2], flat = [1000, 4, 1200, 5]\<rparr>
         \<lparr>shape = [2], flat = [-5, -1]\<rparr>
         [''n_param'' \<mapsto> AInt 2, ''parameter0'' \<mapsto> AStr ''teff'',
          ''parameter1'' \<mapsto> AStr ''logg''] (Some 7)
       = Inr [''teff'' \<mapsto> AReal 1200, ''logg'' \<mapsto> AReal 5]"
proof -
  let ?S = "\<lparr>shape = [2, 2], flat = [1000, 4, 1200, 5 :: real]\<rparr>"
  let ?L = "\<lparr>shape = [2], flat = [-5, -1 :: real]\<rparr>"
  let ?A = "[''n_param'' \<mapsto> AInt 2, ''parameter0'' \<mapsto> AStr ''teff'',
             ''parameter1'' \<mapsto> AStr ''logg'']"
  have h: "ndim ?S = 2" by (simp add: ndim_def)
  have e: "get_median_sample ?S ?A None
       = Inr [''teff'' \<mapsto> AReal 1100, ''logg'' \<mapsto> AReal (9 / 2)]"
    by (simp add: get_median_sample_def median_burnin_def ndim_def
        as_int_def n_param_attr_def column_def np_median_def add_extras_def parameter_key_def
        str_nat.simps upt_conv_Cons Let_def)
  have p: "get_probable_sample ?S ?L ?A None = Inr [''teff'' \<mapsto> AReal 1200, ''logg'' \<mapsto> AReal 5]"
    by (simp add: get_probable_sample_def probable_burnin_def ndim_def np_argmax_def
        as_int_def n_param_attr_def item_at_def add_extras_def parameter_key_def
        str_nat.simps upt_conv_Cons)
  from burnin_ignored_2d[OF h, of ?L ?A "Some 7"] h e p show ?thesis
    by simp
qed

section \<open>Verification: derived columns\<close>

lemma concat_chunk:
  "\<forall>x \<in> set xss. length x = m \<Longrightarrow> r < length xss \<Longrightarrow>
   take m (drop (r * m) (concat xss)) = xss ! r"
proof (induction xss arbitrary: r)
  case Nil
  then show ?case by simp
next
  case (Cons xs xss)
  show ?case
  proof (cases r)
    case 0
    then show ?thesis using Cons.prems by simp
  next
    case (Suc r')
    then show ?thesis using Cons by simp
  qed
qed

lemma concat_map_single: "concat (map (\<lambda>r. [f r]) idx) = map f idx"
  by (induction idx) simp_all

lemma concat_singletons: "concat (map (\<lambda>r. [xs ! r]) [0..<length xs]) = xs"
  by (simp add: concat_map_single map_nth)

lemma np_append_column_shape:
  "np_append_column a col = Inr a' \<Longrightarrow>
   \<exists>n p. shape a = [n, p] \<and> shape a' = [n, Suc p] \<and> length col = n"
  by (auto simp: np_append_column_def split: list.splits if_splits)

lemma np_append_column_last:
  assumes "np_append_column a col = Inr a'" "well_shaped a"
  shows "column a' (last (shape a') - 1) = Inr col"
proof -
  from assms(1) obtain n p where sh: "shape a = [n, p]" "length col = n"
    and a': "a' = \<lparr>shape = [n, Suc p],
        flat = concat (map (\<lambda>r. take p (drop (r * p) (flat a)) @ [col ! r]) [0..<n])\<rparr>"
    by (auto simp: np_append_column_def split: list.splits if_splits)
  let ?rows = "map (\<lambda>r. take p (drop (r * p) (flat a)) @ [col ! r]) [0..<n]"
  from assms(2) sh have len: "length (flat a) = n * p" by (simp add: well_shaped_def)
  have rl: "\<forall>x \<in> set ?rows. length x = Suc p"
  proof
    fix x assume "x \<in> set ?rows"
    then obtain r where r: "r < n" "x = take p (drop (r * p) (flat a)) @ [col ! r]" by auto
    from r(1) have "Suc r * p \<le> n * p" by (metis Suc_leI mult_le_mono1)
    then have "r * p + p \<le> length (flat a)" using len by simp
    then show "length x = Suc p" using r(2) by simp
  qed
  have one: "take 1 (drop ((r * Suc p + p) * 1) (concat ?rows)) = [col ! r]" if "r < n" for r
  proof -
    have "take (Suc p) (drop (r * Suc p) (concat ?rows)) = ?rows ! r"
      using concat_chunk[OF rl, of r] that by simp
    then have e: "take (Suc p) (drop (r * Suc p) (concat ?rows))
        = take p (drop (r * p) (flat a)) @ [col ! r]"
      using that by simp
    have lp: "length (take p (drop (r * p) (flat a))) = p"
    proof -
      from that have "Suc r * p \<le> n * p" by (metis Suc_leI mult_le_mono1)
      then have "r * p + p \<le> length (flat a)" using len by simp
      then show ?thesis by simp
    qed
    have "take 1 (drop p (take (Suc p) (drop (r * Suc p) (concat ?rows)))) = [col ! r]"
      unfolding e using lp by simp
    then show ?thesis
      by (simp add: drop_take add.commute)
  qed
  have "concat (map (\<lambda>r. take 1 (drop ((r * Suc p + p) * 1) (concat ?rows))) [0..<n])
      = concat (map (\<lambda>r. [col ! r]) [0..<n])"
    using one by (intro arg_cong[where f = concat] map_cong) auto
  also have "\<dots> = col" using sh(2) concat_singletons[of col] by simp
  finally show ?thesis
    by (simp add: a' column_def)
qed

text \<open>
  C1. After a derived-column append on a sample set whose \<open>n_param\<close> attribute equals the
  last dimension of the sample array (and that has no parameter name at that index yet):
  the stored \<open>n_param\<close> equals the new last dimension, which is one more than before; the
  attribute \<open>parameter{n_param-1}\<close> holds the name given to the appended column, and that
  column of the new array is the appended one; every attribute that existed before, other than
  \<open>n_param\<close> itself, is present with an unchanged value.
\<close>

theorem append_derived_attributes:
  assumes ret: "append_derived (samples, ats) col name = Inr (samples', ats')"
    and shaped: "well_shaped samples"
    and inv: "ats ''n_param'' = Some (AInt (int (last (shape samples))))"
    and fresh: "ats (parameter_key (last (shape samples))) = None"
  shows "ats' ''n_param'' = Some (AInt (int (last (shape samples'))))
       \<and> last (shape samples') = Suc (last (shape samples))
       \<and> ats' (parameter_key (last (shape samples') - 1)) = Some (AStr name)
       \<and> column samples' (last (shape samples') - 1) = Inr col
       \<and> (\<forall>k \<in> dom ats. k \<noteq> ''n_param'' \<longrightarrow> ats' k = ats k)"
proof -
  from ret have ap: "np_append_column samples col = Inr samples'"
    by (auto simp: append_derived_def split: sum.splits option.splits attr_value.splits)
  from np_append_column_shape[OF ap] obtain n p where
    sh: "shape samples = [n, p]" "shape samples' = [n, Suc p]" by blast
  from inv sh have np: "ats ''n_param'' = Some (AInt (int p))" by simp
  from ret ap np have at': "ats' = ats(''n_param'' \<mapsto> AInt (int p + 1),
         parameter_key p \<mapsto> AStr name)"
    by (auto simp: append_derived_def parameter_key_def str_int_def)
  have ne: "parameter_key p \<noteq> ''n_param''" by (simp add: parameter_key_def)
  have c1: "ats' ''n_param'' = Some (AInt (int (last (shape samples'))))"
    using sh ne by (simp add: at')
  have c3: "ats' (parameter_key (last (shape samples') - 1)) = Some (AStr name)"
    using sh by (simp add: at')
  have c5: "\<forall>k \<in> dom ats. k \<noteq> ''n_param'' \<longrightarrow> ats' k = ats k"
    using fresh sh by (auto simp: at')
  show ?thesis
    using c1 c3 c5 sh np_append_column_last[OF ap shaped] by simp
qed

theorem append_derived_attributes_witness:
  "append_derived (\<lparr>shape = [3, 2], flat = [1, 2, 3, 4, 5, 6]\<rparr>,
        [''n_param'' \<mapsto> AInt 2, ''parameter0'' \<mapsto> AStr ''logg'',
         ''parameter1'' \<mapsto> AStr ''radius'', ''distance'' \<mapsto> AReal 10]) [10, 20, 30] ''teff''
     = Inr (\<lparr>shape = [3, 3], flat = [1, 2, 10, 3, 4, 20, 5, 6, 30]\<rparr>,
        [''n_param'' \<mapsto> AInt 2, ''parameter0'' \<mapsto> AStr ''logg'',
         ''parameter1'' \<mapsto> AStr ''radius'', ''distance'' \<mapsto> AReal 10,
         ''n_param'' \<mapsto> AInt 3, ''parameter2'' \<mapsto> AStr ''teff''])
   \<and> well_shaped \<lparr>shape = [3, 2], flat = [1, 2, 3, 4, 5, 6 :: real]\<rparr>
   \<and> column \<lparr>shape = [3, 3], flat = [1, 2, 10, 3, 4, 20, 5, 6, 30 :: real]\<rparr> 2 = Inr [10, 20, 30]"
proof -
  let ?S = "\<lparr>shape = [3, 2], flat = [1, 2, 3, 4, 5, 6 :: real]\<rparr>"
  let ?A = "[''n_param'' \<mapsto> AInt 2, ''parameter0'' \<mapsto> AStr ''logg'',
         ''parameter1'' \<mapsto> AStr ''radius'', ''distance'' \<mapsto> AReal 10]"
  let ?S' = "\<lparr>shape = [3, 3], flat = [1, 2, 10, 3, 4, 20, 5, 6, 30 :: real]\<rparr>"
  let ?A' = "?A(''n_param'' \<mapsto> AInt 3, ''parameter2'' \<mapsto> AStr ''teff'')"
  have h1: "append_derived (?S, ?A) [10, 20, 30] ''teff'' = Inr (?S', ?A')"
    by (simp add: append_derived_def np_append_column_def str_int_def str_nat.simps
        upt_conv_Cons)
  have h2: "well_shaped ?S" by (simp add: well_shaped_def)
  have h3: "?A ''n_param'' = Some (AInt (int (last (shape ?S))))" by simp
  have h4: "?A (parameter_key (last (shape ?S))) = None"
    by (simp add: parameter_key_def str_nat.simps)
  from append_derived_attributes[OF h1 h2 h3 h4] h1 h2 show ?thesis
    by simp
qed

text \<open>
  The attribute \<open>n_param\<close> exists before the append and does not keep its value: on a
  one-parameter set it is 1 before and 2 after.
\<close>

theorem append_derived_changes_n_param:
  "append_derived (\<lparr>shape = [1, 1], flat = [5]\<rparr>,
        [''n_param'' \<mapsto> AInt 1, ''parameter0'' \<mapsto> AStr ''logg'']) [3] ''teff''
     = Inr (\<lparr>shape = [1, 2], flat = [5, 3]\<rparr>,
        [''n_param'' \<mapsto> AInt 1, ''parameter0'' \<mapsto> AStr ''logg'',
         ''n_param'' \<mapsto> AInt 2, ''parameter1'' \<mapsto> AStr ''teff''])
   \<and> [''n_param'' \<mapsto> AInt 1, ''parameter0'' \<mapsto> AStr ''logg''] ''n_param'' = Some (AInt 1)
   \<and> [''n_param'' \<mapsto> AInt 1, ''parameter0'' \<mapsto> AStr ''logg'',
         ''n_param'' \<mapsto> AInt 2, ''parameter1'' \<mapsto> AStr ''teff''] ''n_param'' = Some (AInt 2)"
  by (simp add: append_derived_def np_append_column_def str_int_def str_nat.simps)

section \<open>Verification: isochrone ingestion\<close>

lemma is_argsort_set: "is_argsort xs idx \<Longrightarrow> set idx = {0..<length xs}"
proof -
  assume "is_argsort xs idx"
  then have "sort idx = [0..<length xs]" by (simp add: is_argsort_def)
  then have "set (sort idx) = set [0..<length xs]" by simp
  then show ?thesis by simp
qed

lemma stable_argsort_is_argsort: "is_argsort xs (stable_argsort xs)"
proof -
  let ?idx = "stable_argsort xs"
  have "sorted (sort ?idx)" "distinct (sort ?idx)" "set (sort ?idx) = set [0..<length xs]"
    by (simp_all add: stable_argsort_def)
  moreover have "sorted [0..<length xs]" "distinct [0..<length xs]" by simp_all
  ultimately have "sort ?idx = [0..<length xs]"
    using sorted_distinct_set_unique[of "sort ?idx" "[0..<length xs]"] by blast
  then show ?thesis by (simp add: is_argsort_def stable_argsort_def)
qed

text \<open>
  The two ingestion functions that sort: whatever \<open>add_manual\<close> and \<open>add_marleau\<close> store
  has its rows in ascending order of the age column, however \<open>np.argsort\<close> orders rows of
  equal age.
\<close>

lemma add_manual_sorted:
  assumes "add_manual c np_argsort isochrones = Inr evolution"
    and srt: "\<And>xs. is_argsort xs (np_argsort xs)"
  shows "sorted_by_age evolution"
proof -
  let ?scaled = "map (\<lambda>r. r[0 := r ! 0 * 1000, 1 := r ! 1 * (M_SUN c / M_JUP c)]) isochrones"
  let ?keys = "map (\<lambda>r. r ! 0) ?scaled"
  from assms(1) have ne: "isochrones \<noteq> []" and rect: "rectangular isochrones"
    and wide: "2 \<le> length (hd isochrones)"
    and ev: "evolution = map (take 8) (take_rows (np_argsort ?keys) ?scaled)"
    by (auto simp: add_manual_def Let_def split: if_splits)
  have "ages evolution = map (\<lambda>i. ?keys ! i) (np_argsort ?keys)"
  proof -
    have "take 8 (?scaled ! i) ! 0 = ?keys ! i" if "i \<in> set (np_argsort ?keys)" for i
    proof -
      from that have i: "i < length isochrones" using is_argsort_set[OF srt[of ?keys]] by simp
      then have "length (isochrones ! i) = length (hd isochrones)"
        using rect by (simp add: rectangular_def)
      with wide have "0 < length (isochrones ! i)" by linarith
      then have "0 < length (?scaled ! i)" using i by simp
      then show ?thesis using i by simp
    qed
    then show ?thesis
      by (simp add: ev ages_def take_rows_def)
  qed
  then show ?thesis
    using srt[of ?keys] by (simp add: sorted_by_age_def is_argsort_def)
qed

lemma add_marleau_sorted:
  assumes "add_marleau c np_argsort table = Inr evolution"
    and srt: "\<And>xs. is_argsort xs (np_argsort xs)"
  shows "sorted_by_age evolution"
proof -
  let ?iso = "map (marleau_row c) table"
  let ?keys = "map (\<lambda>r. r ! 0) ?iso"
  from assms(1) have ev: "evolution = take_rows (np_argsort ?keys) ?iso"
    by (auto simp: add_marleau_def Let_def split: if_splits)
  have "ages evolution = map (\<lambda>i. ?keys ! i) (np_argsort ?keys)"
    using is_argsort_set[OF srt[of ?keys]] by (simp add: ev ages_def take_rows_def)
  then show ?thesis
    using srt[of ?keys] by (simp add: sorted_by_age_def is_argsort_def)
qed

text \<open>
  \<open>add_sonora\<close> and \<open>add_saumon\<close> keep the order of the file: the stored ages are the ages
  of the lines, scaled, in the same order.
\<close>

lemma sonora_rows_ages:
  "sonora_rows c lines = Inr evolution \<Longrightarrow> ages evolution = map (\<lambda>p. 1000 * p ! 0) lines"
proof (induction lines arbitrary: evolution)
  case Nil
  then show ?case by (simp add: ages_def)
next
  case (Cons param rest)
  then show ?case
    by (auto simp: ages_def sonora_row_def split: sum.splits if_splits)
qed

text \<open>
  C9. The code on tables that are not ordered by age. \<open>add_baraffe2015\<close> on three rows of
  two mass tracks (mass \<open>0.01\<close> at \<open>log t = 6\<close> and \<open>7\<close>, then mass \<open>0.02\<close> at
  \<open>log t = 6\<close>; the track file lists one track after another) stores the ages
  \<open>1, 10, 1\<close> Myr in that order; \<open>add_sonora\<close> and \<open>add_saumon\<close> on a table listing
  2 Gyr before 1 Gyr store 2000 before 1000. Neither stored array is sorted by age: these
  three functions have no counterpart of the \<open>np.argsort\<close> of \<open>add_manual\<close> and
  \<open>add_marleau\<close>.
\<close>

theorem unsorted_isochrones_stored:
  "add_baraffe2015 c
      [[1/100, 6, 2300, -3, 4, 0, 0, 0, 0, 0, 0, 0, 0],
       [1/100, 7, 2200, -3, 4, 0, 0, 0, 0, 0, 0, 0, 0],
       [2/100, 6, 2500, -3, 4, 0, 0, 0, 0, 0, 0, 0, 0]]
     = Inr [[1, 1/100 * (M_SUN c / M_JUP c), 2300, -3, 4],
            [10, 1/100 * (M_SUN c / M_JUP c), 2200, -3, 4],
            [1, 2/100 * (M_SUN c / M_JUP c), 2500, -3, 4]]
   \<and> \<not> sorted_by_age [[1, 1/100 * (M_SUN c / M_JUP c), 2300, -3, 4],
            [10, 1/100 * (M_SUN c / M_JUP c), 2200, -3, 4],
            [1, 2/100 * (M_SUN c / M_JUP c), 2500, -3, 4]]
   \<and> add_sonora c [[2, 1/100, -5, 500, 4, 1/10], [1, 1/100, -5, 600, 4, 1/10]]
     = Inr [[2000, 1/100 * M_SUN c / M_JUP c, 500, -5, 4],
            [1000, 1/100 * M_SUN c / M_JUP c, 600, -5, 4]]
   \<and> add_saumon c [[2, 1/100, -5, 500, 4, 1/10], [1, 1/100, -5, 600, 4, 1/10]]
     = Inr [[2000, 1/100 * M_SUN c / M_JUP c, 500, -5, 4],
            [1000, 1/100 * M_SUN c / M_JUP c, 600, -5, 4]]
   \<and> \<not> sorted_by_age [[2000, 1/100 * M_SUN c / M_JUP c, 500, -5, 4],
            [1000, 1/100 * M_SUN c / M_JUP c, 600, -5, 4]]"
  by (simp add: add_baraffe2015_def baraffe2015_row_def add_sonora_def add_saumon_def
      sonora_row_def sorted_by_age_def ages_def)

section \<open>Verification: pressure-temperature profiles\<close>

text \<open>
  The pressure grid has 180 points, from \<open>1e-6\<close> to \<open>1e3\<close>, with a constant ratio between
  neighbours.
\<close>

lemma press_grid:
  "length (logspace (-6) 3 180) = 180 \<and> logspace (-6) 3 180 ! 0 = 1 / 10 ^ 6
   \<and> logspace (-6) 3 180 ! 179 = 10 ^ 3"
  by (simp add: logspace_def powr_minus_divide)

lemma press_grid_ratio:
  "k < 179 \<Longrightarrow> logspace (-6) 3 180 ! Suc k = logspace (-6) 3 180 ! k * 10 powr (9 / 179)"
  by (simp add: logspace_def powr_add[symmetric] field_simps)

text \<open>
  What the spline branch computes: the knot loop returns 15 copies of one entry of the
  sample, the one named \<open>t{i}\<close> for the sample index \<open>i\<close>, and a step that succeeds writes
  column 14 of \<open>temp\<close>, whatever the sample index.
\<close>

lemma knot_loop_copies:
  "knot_loop param_index item i js acc = Inr knot_temp \<Longrightarrow> js \<noteq> [] \<Longrightarrow>
   \<exists>c. param_index (''t'' @ str_nat i) = Some c \<and> c < length item
       \<and> knot_temp = acc @ replicate (length js) (item ! c)"
proof (induction js arbitrary: acc)
  case Nil
  then show ?case by simp
next
  case (Cons j js)
  from Cons.prems(1) obtain c where c: "param_index (''t'' @ str_nat i) = Some c" "c < length item"
    and r: "knot_loop param_index item i js (acc @ [item ! c]) = Inr knot_temp"
    by (auto split: option.splits if_splits)
  show ?case
  proof (cases "js = []")
    case True
    then show ?thesis using c r by simp
  next
    case False
    from Cons.IH[OF r False] c show ?thesis
      by (auto simp: replicate_app_Cons_same)
  qed
qed

lemma profile_step_spline:
  assumes "pt_profile = ''free'' \<or> pt_profile = ''monotonic''"
    and "profile_step prm spl pt_profile param_index press item i temp = Inr temp'"
  shows "\<exists>c pt_smooth. param_index (''t'' @ str_nat i) = Some c \<and> c < length item
       \<and> 14 < length temp
       \<and> temp' = temp[14 := spl (logspace (log 10 (hd press)) (log 10 (last press)) 15)
                                (replicate 15 (item ! c)) press pt_smooth]"
proof -
  from assms obtain pt_smooth knot_temp where
    k: "knot_loop param_index item i [0..<15] [] = Inr knot_temp"
    and s: "set_column temp (length press) (last [0..<15])
              (spl (logspace (log 10 (hd press)) (log 10 (last press)) 15) knot_temp press pt_smooth)
            = Inr temp'"
    by (auto simp: profile_step_def Let_def split: sum.splits)
  from knot_loop_copies[OF k] obtain c where
    c: "param_index (''t'' @ str_nat i) = Some c" "c < length item"
       "knot_temp = replicate 15 (item ! c)" by auto
  have l: "last [0..<15] = (14 :: nat)" by (simp add: upt_conv_Cons)
  from s l have "14 < length temp" and "temp' = temp[14 :=
       spl (logspace (log 10 (hd press)) (log 10 (last press)) 15) knot_temp press pt_smooth]"
    by (auto simp: set_column_def split: if_splits)
  with c show ?thesis by blast
qed

text \<open>
  C8. The code on a sample set with one sample, the fifteen parameters \<open>t0\<close> to \<open>t14\<close>
  and the profile kind \<open>free\<close>: the temperature array has one column, the spline is
  assigned to column 14, and the call raises \<open>IndexError\<close> instead of returning the profile
  of the sample. The knot temperatures handed to the spline for sample 0 are fifteen copies
  of its \<open>t0\<close>, for sample 1 fifteen copies of its \<open>t1\<close>, not the sample's own
  \<open>t0, ..., t14\<close>.
\<close>

theorem get_pt_profiles_single_sample:
  "get_pt_profiles pt_ret_model pt_spline_interp
     \<lparr>shape = [1, 15],
      flat = [100, 200, 300, 400, 500, 600, 700, 800, 900, 1000, 1100, 1200, 1300, 1400, 1500]\<rparr>
     [''spectrum'' \<mapsto> AStr ''petitradtrans'', ''pt_profile'' \<mapsto> AStr ''free'',
      ''n_param'' \<mapsto> AInt 15,
      ''parameter0'' \<mapsto> AStr ''t0'', ''parameter1'' \<mapsto> AStr ''t1'',
      ''parameter2'' \<mapsto> AStr ''t2'', ''parameter3'' \<mapsto> AStr ''t3'',
      ''parameter4'' \<mapsto> AStr ''t4'', ''parameter5'' \<mapsto> AStr ''t5'',
      ''parameter6'' \<mapsto> AStr ''t6'', ''parameter7'' \<mapsto> AStr ''t7'',
      ''parameter8'' \<mapsto> AStr ''t8'', ''parameter9'' \<mapsto> AStr ''t9'',
      ''parameter10'' \<mapsto> AStr ''t10'', ''parameter11'' \<mapsto> AStr ''t11'',
      ''parameter12'' \<mapsto> AStr ''t12'', ''parameter13'' \<mapsto> AStr ''t13'',
      ''parameter14'' \<mapsto> AStr ''t14'']
     None = Inl IndexError
   \<and> knot_loop [''t0'' \<mapsto> 0, ''t1'' \<mapsto> 1, ''t2'' \<mapsto> 2] [100, 200, 300] 0 [0..<15] []
       = Inr (replicate 15 100)
   \<and> knot_loop [''t0'' \<mapsto> 0, ''t1'' \<mapsto> 1, ''t2'' \<mapsto> 2] [100, 200, 300] 1 [0..<15] []
       = Inr (replicate 15 200)"
proof (intro conjI)
  show "knot_loop [''t0'' \<mapsto> 0, ''t1'' \<mapsto> 1, ''t2'' \<mapsto> 2] [100, 200, 300] 0 [0..<15] []
       = Inr (replicate 15 100)"
    by (simp add: str_nat.simps upt_conv_Cons eval_nat_numeral)
  show "knot_loop [''t0'' \<mapsto> 0, ''t1'' \<mapsto> 1, ''t2'' \<mapsto> 2] [100, 200, 300] 1 [0..<15] []
       = Inr (replicate 15 200)"
    by (simp add: str_nat.simps upt_conv_Cons eval_nat_numeral)
qed (simp add: get_pt_profiles_def rows_of_def as_int_def n_param_attr_def
      parameter_key_def str_nat.simps upt_conv_Cons profile_step_def set_column_def Let_def)

section \<open>Verification: covariance of an object spectrum\<close>

lemma nth_concat_rows:
  assumes "\<forall>x \<in> set xss. length x = m" "i < length xss" "j < m"
  shows "concat xss ! (i * m + j) = xss ! i ! j"
proof -
  have "take m (drop (i * m) (concat xss)) = xss ! i"
    using concat_chunk[OF assms(1,2)] .
  then have "xss ! i ! j = take m (drop (i * m) (concat xss)) ! j" by simp
  also have "\<dots> = drop (i * m) (concat xss) ! j" using assms(3) by simp
  also have "\<dots> = concat xss ! (i * m + j)"
  proof -
    have "length (concat xss) = length xss * m"
      using assms(1) by (induction xss) auto
    moreover have "i * m \<le> length xss * m"
      using assms(2) by (simp add: mult_le_mono1)
    ultimately have "i * m \<le> length (concat xss)" by (simp only:)
    then show ?thesis by (simp add: nth_drop)
  qed
  finally show ?thesis by simp
qed

lemma correlation_to_covariance_diag:
  assumes "correlation_to_covariance m sigma = Inr cov" "shape m = [n, n]"
    "list_all (\<lambda>x. x = 1) (np_diag m)" "length sigma = n"
  shows "np_diag cov = map (\<lambda>e. e * e) sigma"
proof -
  let ?rows = "map (\<lambda>i. map (\<lambda>j. flat m ! (i * n + j) * sigma ! i * sigma ! j) [0..<n]) [0..<n]"
  from assms(1,2) have cov: "cov = \<lparr>shape = [n, n], flat = concat ?rows\<rparr>"
    by (auto simp: correlation_to_covariance_def split: if_splits)
  have unit: "flat m ! (i * n + i) = 1" if "i < n" for i
    using assms(2,3) that by (auto simp: np_diag_def list_all_iff)
  have "concat ?rows ! (i * n + i) = sigma ! i * sigma ! i" if "i < n" for i
  proof -
    have "concat ?rows ! (i * n + i) = ?rows ! i ! i"
      by (rule nth_concat_rows) (use that in auto)
    then show ?thesis using that unit by simp
  qed
  then have "np_diag cov = map (\<lambda>i. sigma ! i * sigma ! i) [0..<n]"
    by (simp add: np_diag_def cov)
  also have "\<dots> = map (\<lambda>e. e * e) (map (\<lambda>i. sigma ! i) [0..<length sigma])"
    using assms(4) by simp
  also have "\<dots> = map (\<lambda>e. e * e) sigma" by (simp only: map_nth)
  finally show ?thesis .
qed


lemma column_length:
  assumes "column a i = Inr xs" "shape a = [n, c]" "well_shaped a"
  shows "length xs = n"
proof -
  from assms(1,2) have i: "i < c"
    and xs: "xs = concat (map (\<lambda>r. take 1 (drop ((r * c + i) * 1) (flat a))) [0..<n])"
    by (auto simp: column_def split: if_splits)
  from assms(2,3) have len: "length (flat a) = n * c" by (simp add: well_shaped_def)
  have "length (take 1 (drop ((r * c + i) * 1) (flat a))) = 1" if "r < n" for r
  proof -
    have "Suc r * c \<le> n * c" using that by (metis Suc_leI mult_le_mono1)
    then have "r * c + i < length (flat a)" using i len by simp
    then show ?thesis by simp
  qed
  then have "map length (map (\<lambda>r. take 1 (drop ((r * c + i) * 1) (flat a))) [0..<n])
      = map (\<lambda>r. 1) [0..<n]"
    by simp
  then have "length xs = sum_list (map (\<lambda>r. 1) [0..<n])"
    by (simp only: xs length_concat)
  then show ?thesis by (simp add: sum_list_triv)
qed

lemma fits_cov_loop_found:
  "fits_cov_loop spec hdulist (Some cov) = Inr (Some cov)"
  by (induction hdulist) simp_all

lemma fits_cov_loop_skip:
  "list_all (\<lambda>h. \<not> cov_candidate (shape spec ! 0) h) before \<Longrightarrow>
   fits_cov_loop spec (before @ rest) None = fits_cov_loop spec rest None"
  by (induction before) (auto simp: cov_candidate_def)

lemma convert_if_correlation_diag:
  assumes "convert_if_correlation spec m = Inr cov" "shape m = [n, n]"
    "list_all (\<lambda>x. x = 1) (np_diag m)" "shape spec = [n, c]" "well_shaped spec"
    "column spec 2 = Inr spec_sigma"
  shows "np_diag cov = map (\<lambda>e. e * e) spec_sigma"
proof -
  from assms(1,3,6) have "correlation_to_covariance m spec_sigma = Inr cov"
    by (simp add: convert_if_correlation_def)
  moreover have "length spec_sigma = n"
    using column_length[OF assms(6,4,5)] .
  ultimately show ?thesis
    using correlation_to_covariance_diag assms(2,3) by blast
qed

text \<open>
  C6. Let the covariance input of a spectrum be an ASCII table \<open>m\<close>, or a FITS file not in
  the GRAVITY format in which \<open>m\<close> is the first square HDU whose size is the number of rows
  of the spectrum. If \<open>m\<close> is an \<open>n\<close> by \<open>n\<close> matrix with ones on the diagonal, the spectrum
  has \<open>n\<close> rows, and \<open>add_object\<close> accepts the input, then the diagonal of the matrix
  stored as the covariance is the element-wise square of the flux-error column of the
  spectrum.
\<close>

theorem correlation_matrix_converted:
  assumes src: "cfile = AsciiFile m
         \<or> (\<exists>before rest. cfile = FitsFile (before @ m # rest)
                \<and> list_all (\<lambda>h. \<not> cov_candidate n h) before)"
    and square: "shape m = [n, n]"
    and unit: "list_all (\<lambda>x. x = 1) (np_diag m)"
    and spec: "shape spec = [n, c]" "well_shaped spec"
    and sigma: "column spec 2 = Inr spec_sigma"
    and stored: "read_covariance spec cfile = Inr (Some cov)"
  shows "np_diag cov = map (\<lambda>e. e * e) spec_sigma"
proof -
  have "convert_if_correlation spec m = Inr cov"
    using src
  proof
    assume "cfile = AsciiFile m"
    with stored show ?thesis
      by (auto simp: read_covariance_def split: if_splits sum.splits)
  next
    assume "\<exists>before rest. cfile = FitsFile (before @ m # rest)
                \<and> list_all (\<lambda>h. \<not> cov_candidate n h) before"
    then obtain before rest where f: "cfile = FitsFile (before @ m # rest)"
      and b: "list_all (\<lambda>h. \<not> cov_candidate n h) before" by blast
    from b spec have "fits_cov_loop spec (before @ m # rest) None = fits_cov_loop spec (m # rest) None"
      using fits_cov_loop_skip[of spec before "m # rest"] by simp
    moreover have "fits_cov_loop spec (m # rest) None =
        (case convert_if_correlation spec m of Inl e \<Rightarrow> Inl e | Inr cov' \<Rightarrow> Inr (Some cov'))"
      using square spec by (simp add: ndim_def fits_cov_loop_found split: sum.splits)
    ultimately show ?thesis
      using stored f by (auto simp: read_covariance_def split: sum.splits option.splits)
  qed
  then show ?thesis
    using convert_if_correlation_diag square unit spec sigma by blast
qed

theorem correlation_matrix_converted_witness:
  "shape \<lparr>shape = [2, 2], flat = [1, 1/2, 1/2, 1 :: real]\<rparr> = [2, 2]
   \<and> list_all (\<lambda>x. x = 1) (np_diag \<lparr>shape = [2, 2], flat = [1, 1/2, 1/2, 1 :: real]\<rparr>)
   \<and> column \<lparr>shape = [2, 3], flat = [1, 10, 2, 2, 20, 3 :: real]\<rparr> 2 = Inr [2, 3]
   \<and> read_covariance \<lparr>shape = [2, 3], flat = [1, 10, 2, 2, 20, 3]\<rparr>
        (FitsFile [\<lparr>shape = [], flat = []\<rparr>, \<lparr>shape = [2, 2], flat = [1, 1/2, 1/2, 1]\<rparr>])
       = Inr (Some \<lparr>shape = [2, 2], flat = [4, 3, 3, 9]\<rparr>)
   \<and> np_diag \<lparr>shape = [2, 2], flat = [4, 3, 3, 9 :: real]\<rparr> = [4, 9]"
proof -
  let ?m = "\<lparr>shape = [2, 2], flat = [1, 1/2, 1/2, 1 :: real]\<rparr>"
  let ?e = "\<lparr>shape = [], flat = [] :: real list\<rparr>"
  let ?spec = "\<lparr>shape = [2, 3], flat = [1, 10, 2, 2, 20, 3 :: real]\<rparr>"
  let ?cov = "\<lparr>shape = [2, 2], flat = [4, 3, 3, 9 :: real]\<rparr>"
  have h1: "FitsFile [?e, ?m] = AsciiFile ?m
         \<or> (\<exists>before rest. FitsFile [?e, ?m] = FitsFile (before @ ?m # rest)
                \<and> list_all (\<lambda>h. \<not> cov_candidate 2 h) before)"
    by (rule disjI2, rule exI[of _ "[?e]"], rule exI[of _ "[]"])
       (simp add: cov_candidate_def ndim_def)
  have h2: "shape ?m = [2, 2]" by simp
  have h3: "list_all (\<lambda>x. x = 1) (np_diag ?m)" by (simp add: np_diag_def upt_conv_Cons)
  have h4: "shape ?spec = [2, 3]" by simp
  have h5: "well_shaped ?spec" by (simp add: well_shaped_def)
  have h6: "column ?spec 2 = Inr [2, 3]" by (simp add: column_def upt_conv_Cons)
  have h7: "read_covariance ?spec (FitsFile [?e, ?m]) = Inr (Some ?cov)"
    by (simp add: read_covariance_def ndim_def convert_if_correlation_def np_diag_def
        column_def correlation_to_covariance_def upt_conv_Cons)
  from correlation_matrix_converted[OF h1 h2 h3 h4 h5 h6 h7] h2 h3 h6 h7 show ?thesis
    by simp
qed

text \<open>
  A covariance read from a FITS file in the GRAVITY format is stored as it is: the identity
  matrix supplied for a spectrum with flux errors 2 and 3 is stored with diagonal
  \<open>[1, 1]\<close>, not \<open>[4, 9]\<close>.
\<close>

theorem gravity_covariance_stored_unchanged:
  "read_covariance \<lparr>shape = [2, 3], flat = [1, 10, 2, 2, 20, 3]\<rparr>
        (GravityFits \<lparr>shape = [2, 2], flat = [1, 0, 0, 1]\<rparr>)
       = Inr (Some \<lparr>shape = [2, 2], flat = [1, 0, 0, 1]\<rparr>)
   \<and> list_all (\<lambda>x. x = 1) (np_diag \<lparr>shape = [2, 2], flat = [1, 0, 0, 1 :: real]\<rparr>)
   \<and> column \<lparr>shape = [2, 3], flat = [1, 10, 2, 2, 20, 3 :: real]\<rparr> 2 = Inr [2, 3]
   \<and> np_diag \<lparr>shape = [2, 2], flat = [1, 0, 0, 1 :: real]\<rparr> \<noteq> map (\<lambda>e. e * e) [2, 3]"
  by (simp add: read_covariance_def np_diag_def column_def upt_conv_Cons)

text \<open>
  The shape check of the ASCII reader is the one of the spectrum reader (\<open>3 in data.shape\<close>):
  a 2 by 2 correlation matrix for a spectrum of two points is rejected.
\<close>

theorem ascii_covariance_rejected:
  "read_covariance \<lparr>shape = [2, 3], flat = [1, 10, 2, 2, 20, 3]\<rparr>
        (AsciiFile \<lparr>shape = [2, 2], flat = [1, 1/2, 1/2, 1]\<rparr>) = Inl ValueError"
  by (simp add: read_covariance_def ndim_def)

section \<open>Verification: re-ingestion\<close>

lemma blocked_iff:
  "blocked f p \<longleftrightarrow> f p \<noteq> None \<or> (\<exists>q. prefix q p \<and> is_dataset (f q))"
  by (auto simp: blocked_def list_ex_iff)

lemma create_dataset_iff:
  "create_dataset f p data ats =
     (if blocked f p
      then Inl (if butlast p \<noteq> [] \<and> is_dataset (f (butlast p)) then TypeError else ValueError)
      else Inr (h5_put f p (Dataset data ats)))"
proof -
  have "blocked f p" if "is_dataset (f (butlast p))"
    using that prefixeq_butlast[of p] by (auto simp: blocked_iff)
  then show ?thesis by (auto simp: create_dataset_def)
qed

lemma wf_no_descendants:
  assumes "wf_store f" "f p = None" "p \<noteq> []" "prefix p q"
  shows "f q = None"
proof (rule ccontr)
  assume n: "f q \<noteq> None"
  with assms(2) have "q \<noteq> p" by auto
  with assms(4) have "strict_prefix p q" by (simp add: strict_prefix_def)
  with assms(1,3) n have "f p = Some Group" by (auto simp: wf_store_def)
  with assms(2) show False by simp
qed

lemma wf_dataset_leaf:
  assumes "wf_store f" "is_dataset (f p)" "strict_prefix p q"
  shows "f q = None"
proof (rule ccontr)
  assume n: "f q \<noteq> None"
  from assms(2) have pn: "p \<noteq> []" using assms(1) by (auto simp: wf_store_def is_dataset_def)
  with assms(1,3) n have "f p = Some Group" by (auto simp: wf_store_def)
  with assms(2) show False by (simp add: is_dataset_def)
qed

lemma delete_if_present_del:
  assumes "wf_store f" "p \<noteq> []"
  shows "delete_if_present f p = h5_del f p"
proof (cases "f p = None")
  case True
  have "h5_del f p = f"
    using wf_no_descendants[OF assms(1) True assms(2)] by (auto simp: h5_del_def fun_eq_iff)
  with True show ?thesis by (simp add: delete_if_present_def h5_in_def)
next
  case False
  then show ?thesis by (simp add: delete_if_present_def h5_in_def)
qed

lemma wf_del: "wf_store f \<Longrightarrow> p \<noteq> [] \<Longrightarrow> wf_store (h5_del f p)"
  unfolding wf_store_def h5_del_def
  by (auto dest: prefix_order.less_imp_le prefix_order.trans)

lemma wf_put:
  assumes "wf_store f" "\<not> blocked f p" "p \<noteq> []"
  shows "wf_store (h5_put f p nd)"
  unfolding wf_store_def
proof (intro conjI allI impI)
  show "h5_put f p nd [] = None"
    using assms by (auto simp: h5_put_def wf_store_def)
next
  fix a q
  assume a: "h5_put f p nd a \<noteq> None" and s: "strict_prefix q a" and q: "q \<noteq> []"
  from assms(2) have fp: "f p = None" and nd: "\<And>r. prefix r p \<Longrightarrow> \<not> is_dataset (f r)"
    by (auto simp: blocked_iff)
  show "h5_put f p nd q = Some Group"
  proof (cases "a = p \<or> strict_prefix a p")
    case True
    then have qp: "strict_prefix q p" using s by (auto dest: prefix_order.less_trans)
    show ?thesis
    proof (cases "f q")
      case None
      then show ?thesis using qp q by (auto simp: h5_put_def)
    next
      case (Some n)
      with nd[of q] qp have "n = Group"
        by (cases n) (auto simp: is_dataset_def strict_prefix_def)
      then show ?thesis using Some qp by (auto simp: h5_put_def)
    qed
  next
    case False
    with a have fa: "f a \<noteq> None" by (auto simp: h5_put_def split: if_splits)
    with assms(1) s q have fq: "f q = Some Group" by (auto simp: wf_store_def)
    have "q \<noteq> p" using fq fp by auto
    then show ?thesis using fq by (auto simp: h5_put_def)
  qed
qed





lemma require_present: "h5_in f g \<Longrightarrow> require_group f g = Inr f"
  by (simp add: require_group_def)


lemma prefixes_one: "prefix q [x] \<longleftrightarrow> q = [] \<or> q = [x]"
  by (cases q) auto

lemma prefixes_two: "prefix q [x, y] \<longleftrightarrow> q = [] \<or> q = [x] \<or> q = [x, y]"
  by (cases q; cases "tl q") auto

lemma clean_delete: "wf_store f \<Longrightarrow> p \<noteq> [] \<Longrightarrow> clean (delete_if_present f p) p"
  by (simp add: delete_if_present_del clean_def h5_del_def)

lemma wf_delete: "wf_store f \<Longrightarrow> p \<noteq> [] \<Longrightarrow> wf_store (delete_if_present f p)"
  by (simp add: delete_if_present_del wf_del)

lemma delete_clean: "clean g p \<Longrightarrow> delete_if_present g p = g"
  by (simp add: delete_if_present_def h5_in_def clean_def)


lemma clean_upd: "clean g p \<Longrightarrow> \<not> prefix p q \<Longrightarrow> clean (g(q \<mapsto> x)) p"
  by (auto simp: clean_def)

lemma strict_prefix_one: "strict_prefix q [x] \<longleftrightarrow> q = []"
  by (auto simp: strict_prefix_def prefixes_one)

lemma strict_prefix_two: "strict_prefix q [x, y] \<longleftrightarrow> q = [] \<or> q = [x]"
  by (auto simp: strict_prefix_def prefixes_two)

lemma require_single:
  "wf_store f \<Longrightarrow>
   require_group f [x] = Inr (if f [x] = None then f([x] \<mapsto> Group) else f)"
  by (auto simp: require_group_def create_group_def blocked_iff h5_in_def h5_put_def prefixes_one
      strict_prefix_one wf_store_def is_dataset_def fun_eq_iff)

lemma require_second:
  "wf_store f \<Longrightarrow> f [x] \<noteq> None \<Longrightarrow>
   require_group f [x, y] =
     (if f [x, y] \<noteq> None then Inr f
      else if is_dataset (f [x]) then Inl ValueError
      else Inr (f([x, y] \<mapsto> Group)))"
  by (auto simp: require_group_def create_group_def blocked_iff h5_in_def h5_put_def prefixes_two
      strict_prefix_two wf_store_def is_dataset_def fun_eq_iff)

lemma wf_upd_single: "wf_store f \<Longrightarrow> f [x] = None \<Longrightarrow> wf_store (f([x] \<mapsto> Group))"
  using wf_put[of f "[x]" Group]
  by (auto simp: blocked_iff prefixes_one strict_prefix_one wf_store_def is_dataset_def
      h5_put_def fun_upd_def)

lemma wf_require:
  assumes "wf_store f" "g \<noteq> []" "require_group f g = Inr f'"
  shows "wf_store f'"
  using assms wf_put[of f g Group]
  by (auto simp: require_group_def create_group_def split: if_splits)

lemma fill_single_props:
  assumes "wf_store g" "clean g p" "\<not> prefix p [x]"
  defines "g' \<equiv> (if g [x] = None then g([x] \<mapsto> Group) else g)"
  shows "wf_store g'" "clean g' p" "g' [x] \<noteq> None" "require_group g' [x] = Inr g'"
    "require_group g [x] = Inr g'"
proof -
  show "wf_store g'" using assms(1) by (simp add: g'_def wf_upd_single)
  show "clean g' p" using assms(2,3) by (simp add: g'_def clean_upd)
  show n: "g' [x] \<noteq> None" by (simp add: g'_def)
  show "require_group g' [x] = Inr g'" using n by (simp add: require_present h5_in_def)
  show "require_group g [x] = Inr g'" using require_single[OF assms(1), of x] by (simp add: g'_def)
qed



lemma filter_prep_cons:
  fixes c :: string and r :: "string list"
  assumes wf: "wf_store f"
  defines "f1 \<equiv> delete_if_present f (''filters'' # c # r)"
  defines "f2 \<equiv> (if f1 [''filters''] = None then f1([''filters''] \<mapsto> Group) else f1)"
  shows "filter_prep f (c # r) =
       (case require_group f2 [''filters'', c] of Inl e \<Rightarrow> Inl (e, f2) | Inr f3 \<Rightarrow> Inr f3)"
    and "filter_prep f2 (c # r) =
       (case require_group f2 [''filters'', c] of Inl e \<Rightarrow> Inl (e, f2) | Inr f3 \<Rightarrow> Inr f3)"
    and "wf_store f2" and "clean f2 (''filters'' # c # r)" and "f2 [''filters''] \<noteq> None"
proof -
  have w1: "wf_store f1" using wf by (simp add: f1_def wf_delete)
  have c1: "clean f1 (''filters'' # c # r)" using wf by (simp add: f1_def clean_delete)
  have np: "\<not> prefix (''filters'' # c # r) [''filters'']" by simp
  note p2 = fill_single_props[OF w1 c1 np, folded f2_def]
  show "wf_store f2" "clean f2 (''filters'' # c # r)" "f2 [''filters''] \<noteq> None"
    using p2 by simp_all
  show "filter_prep f (c # r) =
       (case require_group f2 [''filters'', c] of Inl e \<Rightarrow> Inl (e, f2) | Inr f3 \<Rightarrow> Inr f3)"
    using p2(5) by (simp add: filter_prep_def Let_def f1_def[symmetric])
  have "delete_if_present f2 (''filters'' # c # r) = f2" using p2(2) by (rule delete_clean)
  then show "filter_prep f2 (c # r) =
       (case require_group f2 [''filters'', c] of Inl e \<Rightarrow> Inl (e, f2) | Inr f3 \<Rightarrow> Inr f3)"
    using p2(4) by (simp add: filter_prep_def Let_def)
qed


lemma add_filter_split:
  "add_filter f n w t d =
     (case filter_prep f n of
        Inl (e, s) \<Rightarrow> (Some e, s)
      | Inr f3 \<Rightarrow> filter_write f3 n w t d)"
  by (simp add: add_filter_def filter_prep_def filter_write_def Let_def split: sum.splits)





lemma strict_prefix_snoc_iff: "strict_prefix q (t @ [x]) \<longleftrightarrow> prefix q t"
  by (auto simp: strict_prefix_def dest: prefix_length_le)









lemma way_free_iff:
  "way_free f p \<longleftrightarrow> (\<forall>q. strict_prefix q p \<longrightarrow> \<not> is_dataset (f q))"
proof (cases p rule: rev_cases)
  case Nil
  then show ?thesis by (simp add: way_free_def)
next
  case (snoc xs x)
  have "butlast (prefixes (xs @ [x])) = prefixes xs" by (simp add: prefixes_snoc)
  then show ?thesis
    by (auto simp: way_free_def snoc list_ex_iff strict_prefix_snoc_iff)
qed

lemma filled_put:
  "h5_put (if g [x] = None then g([x] \<mapsto> Group) else g) (x # y # r) nd = h5_put g (x # y # r) nd"
  by (auto simp: h5_put_def fun_eq_iff)

lemma filled_put2:
  "r \<noteq> [] \<Longrightarrow>
   h5_put (if g [x, y] = None then g([x, y] \<mapsto> Group) else g) (x # y # r) nd
     = h5_put g (x # y # r) nd"
  by (auto simp: h5_put_def fun_eq_iff strict_prefix_def)

lemma not_blocked_after_del:
  assumes wf: "wf_store f" and p: "p \<noteq> []"
    and way: "\<forall>q. strict_prefix q p \<longrightarrow> \<not> is_dataset (f q)"
  shows "\<not> blocked (h5_del f p) p"
  using way by (auto simp: blocked_iff h5_del_def strict_prefix_def is_dataset_def)

lemma add_filter_success:
  assumes wf: "wf_store f" and len: "2 \<le> length n"
    and way: "\<forall>q. strict_prefix q (''filters'' # n) \<longrightarrow> \<not> is_dataset (f q)"
    and fc: "filter_columns w t = Inr (wn, tn)"
  shows "add_filter f n (Some w) (Some t) d
     = (None, h5_put (h5_del f (''filters'' # n)) (''filters'' # n)
                (Dataset (float_array (column_stack wn tn)) [''det_type'' \<mapsto> AStr d]))"
proof -
  from len obtain c r where n: "n = c # r" and r: "r \<noteq> []"
    by (cases n; cases "tl n") auto
  let ?P = "''filters'' # c # r"
  let ?nd = "Dataset (float_array (column_stack wn tn)) [''det_type'' \<mapsto> AStr d]"
  define f1 where "f1 = delete_if_present f ?P"
  define f2 where "f2 = (if f1 [''filters''] = None then f1([''filters''] \<mapsto> Group) else f1)"
  note pc = filter_prep_cons[OF wf, of c r, folded f1_def, folded f2_def]
  have f1d: "f1 = h5_del f ?P" using wf by (simp add: f1_def delete_if_present_del)
  have "f1 [''filters''] = f [''filters'']" by (simp add: f1d h5_del_def)
  moreover have "\<not> is_dataset (f [''filters''])" using way n by (simp add: strict_prefix_def)
  ultimately have nd2: "\<not> is_dataset (f2 [''filters''])"
    by (auto simp: f2_def is_dataset_def)
  define f3 where "f3 = (if f2 [''filters'', c] = None then f2([''filters'', c] \<mapsto> Group) else f2)"
  have rq: "require_group f2 [''filters'', c] = Inr f3"
    using require_second[OF pc(3) pc(5), of c] nd2 by (auto simp: f3_def)
  have prep: "filter_prep f n = Inr f3" using pc(1) rq by (simp add: n)
  have "h5_put f3 ?P ?nd = h5_put f2 ?P ?nd" unfolding f3_def by (rule filled_put2[OF r])
  also have "\<dots> = h5_put f1 ?P ?nd" unfolding f2_def by (rule filled_put)
  finally have put: "h5_put f3 ?P ?nd = h5_put f1 ?P ?nd" .
  have nb1: "\<not> blocked f1 ?P"
    unfolding f1d using wf way n by (intro not_blocked_after_del) simp_all
  have nb: "\<not> blocked f3 ?P"
    using nb1 r by (auto simp: blocked_iff f3_def f2_def is_dataset_def split: if_splits)
  have "filter_write f3 n (Some w) (Some t) d = (None, h5_put f3 ?P ?nd)"
    using fc nb by (simp add: filter_write_def create_dataset_iff n)
  then show ?thesis using prep put by (simp add: add_filter_split n f1d)
qed





lemma second_isochrone_call_raises:
  assumes "add_baraffe2015_store f c table = (None, s)"
  shows "add_baraffe2015_store s c table = (Some ValueError, s)"
proof -
  let ?P = "[''isochrones'', ''baraffe2015'', ''evolution'']"
  from assms obtain iso where iso: "add_baraffe2015 c table = Inr iso"
    and cr: "create_dataset f ?P (float_array (rows_array iso))
               [''model'' \<mapsto> AStr ''baraffe2015''] = Inr s"
    by (auto simp: add_baraffe2015_store_def split: sum.splits)
  from cr have nd: "\<not> is_dataset (f [''isochrones'', ''baraffe2015''])"
    and s: "s = h5_put f ?P (Dataset (float_array (rows_array iso))
               [''model'' \<mapsto> AStr ''baraffe2015''])"
    by (auto simp: create_dataset_def split: if_splits)
  have "s ?P \<noteq> None" by (simp add: s h5_put_def)
  then have b: "blocked s ?P" by (simp add: blocked_iff)
  have "\<not> is_dataset (s [''isochrones'', ''baraffe2015''])"
    using nd by (auto simp: s h5_put_def is_dataset_def)
  then show ?thesis using iso b
    by (simp add: add_baraffe2015_store_def create_dataset_def)
qed


lemma strict_prefix_Cons_iff:
  "strict_prefix q (x # xs) \<longleftrightarrow> q = [] \<or> (\<exists>r. q = x # r \<and> strict_prefix r xs)"
  by (cases q) auto



section \<open>Verification: apparent magnitudes of an object\<close>

lemma vega_step:
  assumes wf: "wf_store f" and v: "vega_ready sv f"
  shows "\<exists>f1. (if \<not> h5_in f [''spectra'', ''calibration'', ''vega'']
               then add_spectra sv f ''vega'' else (None, f)) = (None, f1)
           \<and> wf_store f1 \<and> (\<forall>q. \<not> prefix [''spectra''] q \<longrightarrow> f1 q = f q)"
proof (cases "h5_in f [''spectra'', ''calibration'', ''vega'']")
  case True
  then show ?thesis using wf by simp
next
  case False
  with v have c: "confined (add_library sv ''vega'') [''spectra'']" by (simp add: vega_ready_def)
  define f1 where "f1 = (if f [''spectra''] = None then f([''spectra''] \<mapsto> Group) else f)"
  have q1: "require_group f [''spectra''] = Inr f1"
    using require_single[OF wf, of "''spectra''"] by (simp add: f1_def)
  have wf1: "wf_store f1" using wf by (simp add: f1_def wf_upd_single)
  define f2 where "f2 = delete_if_present f1 [''spectra'', ''vega'']"
  have f2d: "f2 = h5_del f1 [''spectra'', ''vega'']"
    using wf1 by (simp add: f2_def delete_if_present_del)
  have wf2: "wf_store f2" using wf1 by (simp add: f2_def wf_delete)
  from c wf2 obtain g' where g: "add_library sv ''vega'' f2 = Inr g'" "wf_store g'"
    "\<forall>q. \<not> prefix [''spectra''] q \<longrightarrow> g' q = f2 q"
    unfolding confined_def by blast
  have run: "add_spectra sv f ''vega'' = (None, g')"
    using q1 g(1) by (simp add: add_spectra_def Let_def f2_def spectral_library_def)
  have "g' q = f q" if "\<not> prefix [''spectra''] q" for q
  proof -
    from that have "q \<noteq> [''spectra'']" "\<not> prefix [''spectra'', ''vega''] q"
      by (auto simp: prefix_def)
    then have "f2 q = f q" by (simp add: f2d h5_del_def f1_def)
    then show ?thesis using g(3) that by simp
  qed
  then show ?thesis using False run g(2) by simp
qed

lemma filter_groups_step:
  assumes wf: "wf_store f" and ne: "item \<noteq> []"
    and nd: "\<not> is_dataset (f [''filters''])"
    and absent: "\<not> h5_in f (''filters'' # item)"
  shows "\<exists>f3. filter_prep f item = Inr f3 \<and> wf_store f3
           \<and> (\<forall>q. \<not> prefix [''filters''] q \<longrightarrow> f3 q = f q)
           \<and> (\<forall>q. is_dataset (f3 q) \<longrightarrow> is_dataset (f q))
           \<and> (\<forall>q. f q \<noteq> None \<longrightarrow> f3 q \<noteq> None)"
proof -
  from ne obtain c r where item: "item = c # r" by (cases item) auto
  define f1 where "f1 = delete_if_present f (''filters'' # c # r)"
  define f2 where "f2 = (if f1 [''filters''] = None then f1([''filters''] \<mapsto> Group) else f1)"
  note pc = filter_prep_cons[OF wf, of c r, folded f1_def, folded f2_def]
  have f1: "f1 = f" using absent by (simp add: f1_def delete_if_present_def item)
  have nd2: "\<not> is_dataset (f2 [''filters''])" using nd by (auto simp: f2_def f1 is_dataset_def)
  define f3 where "f3 = (if f2 [''filters'', c] = None then f2([''filters'', c] \<mapsto> Group) else f2)"
  have rq: "require_group f2 [''filters'', c] = Inr f3"
    using require_second[OF pc(3) pc(5), of c] nd2 by (auto simp: f3_def)
  have prep: "filter_prep f item = Inr f3" using pc(1) rq by (simp add: item)
  have wf3: "wf_store f3" using wf_require[OF pc(3) _ rq] by simp
  have "f3 q = f q" if "\<not> prefix [''filters''] q" for q
  proof -
    from that have "q \<noteq> [''filters'']" "q \<noteq> [''filters'', c]" by (auto simp: prefix_def)
    then show ?thesis by (simp add: f3_def f2_def f1)
  qed
  moreover have "is_dataset (f q)" if "is_dataset (f3 q)" for q
    using that by (auto simp: f3_def f2_def f1 is_dataset_def split: if_splits)
  moreover have "f3 q \<noteq> None" if "f q \<noteq> None" for q
    using that by (auto simp: f3_def f2_def f1)
  ultimately show ?thesis using prep wf3 by blast
qed

lemma download_step:
  assumes wf: "wf_store f" and ne: "item \<noteq> []"
    and way: "way_free f (''filters'' # item)"
    and absent: "\<not> h5_in f (''filters'' # item)"
    and ready: "download_ready sv f item"
  shows "\<exists>f'. add_filter_download sv f item = (None, f') \<and> wf_store f'
           \<and> (\<forall>q. \<not> prefix [''filters''] q \<longrightarrow> f' q = f q)
           \<and> (\<forall>q. is_dataset (f' q) \<longrightarrow> q = ''filters'' # item \<or> is_dataset (f q))
           \<and> (\<forall>q. f q \<noteq> None \<longrightarrow> f' q \<noteq> None)"
proof -
  let ?P = "''filters'' # item"
  from way have wayq: "\<forall>q. strict_prefix q ?P \<longrightarrow> \<not> is_dataset (f q)"
    by (simp add: way_free_iff)
  from ne have "strict_prefix [''filters''] ?P" by (simp add: strict_prefix_def)
  with wayq have nd: "\<not> is_dataset (f [''filters''])" by blast
  from ready absent obtain wl tr d where dl: "download_filter sv item = Inr (wl, tr, d)"
    and fine: "case wl of None \<Rightarrow> True
               | Some w \<Rightarrow> (case tr of None \<Rightarrow> True
                             | Some t \<Rightarrow> 2 \<le> length item \<and> returns (filter_columns w t))"
    by (auto simp: download_ready_def split: sum.splits prod.splits)
  have run0: "add_filter_download sv f item = add_filter f item wl tr d"
    using dl by (simp add: add_filter_download_def)
  from filter_groups_step[OF wf ne nd absent] obtain f3 where
    g: "filter_prep f item = Inr f3" "wf_store f3"
       "\<forall>q. \<not> prefix [''filters''] q \<longrightarrow> f3 q = f q"
       "\<forall>q. is_dataset (f3 q) \<longrightarrow> is_dataset (f q)"
       "\<forall>q. f q \<noteq> None \<longrightarrow> f3 q \<noteq> None" by blast
  show ?thesis
  proof (cases "wl = None \<or> tr = None")
    case True
    then have "add_filter f item wl tr d = (None, f3)"
      using g(1) by (auto simp: add_filter_split filter_write_def split: option.splits)
    then show ?thesis using run0 g by auto
  next
    case False
    then obtain w t where wt: "wl = Some w" "tr = Some t" by auto
    with fine have len: "2 \<le> length item" and "returns (filter_columns w t)" by simp_all
    then obtain wn tn where fc: "filter_columns w t = Inr (wn, tn)"
      by (cases "filter_columns w t") (auto simp: returns_def)
    let ?nd = "Dataset (float_array (column_stack wn tn)) [''det_type'' \<mapsto> AStr d]"
    let ?s = "h5_put (h5_del f ?P) ?P ?nd"
    have run: "add_filter f item wl tr d = (None, ?s)"
      using add_filter_success[OF wf len wayq fc] wt by simp
    have nothing: "f q = None" if "prefix ?P q" for q
      using wf_no_descendants[OF wf _ _ that] absent by (simp add: h5_in_def)
    then have del: "h5_del f ?P = f" by (auto simp: h5_del_def fun_eq_iff)
    have nb: "\<not> blocked f ?P"
      using not_blocked_after_del[OF wf _ wayq] del by simp
    have wfs: "wf_store ?s" unfolding del using wf nb by (intro wf_put) simp_all
    have "?s q = f q" if "\<not> prefix [''filters''] q" for q
    proof -
      from that have "q \<noteq> ?P" "\<not> strict_prefix q ?P \<or> q = []"
        by (auto simp: strict_prefix_Cons_iff)
      then show ?thesis unfolding del by (auto simp: h5_put_def)
    qed
    moreover have "q = ?P \<or> is_dataset (f q)" if "is_dataset (?s q)" for q
      using that unfolding del by (auto simp: h5_put_def is_dataset_def split: if_splits)
    moreover have "?s q \<noteq> None" if "f q \<noteq> None" for q
      using that unfolding del by (auto simp: h5_put_def)
    ultimately show ?thesis using run0 run wfs by auto
  qed
qed

lemma prefix_free_iff:
  "prefix_free items \<longleftrightarrow> (\<forall>i \<in> set items. \<forall>j \<in> set items. \<not> strict_prefix i j)"
  by (simp add: prefix_free_def list_all_iff)

lemma download_ready_mono:
  assumes "download_ready sv f item" and "\<forall>q. f q \<noteq> None \<longrightarrow> f' q \<noteq> None"
  shows "download_ready sv f' item"
  using assms by (auto simp: download_ready_def h5_in_def)

lemma prefetch_filters_ok:
  assumes "wf_store f"
    and "\<forall>item \<in> set items. item \<noteq> [] \<and> way_free f (''filters'' # item)
           \<and> download_ready sv f item"
    and "prefix_free items"
  shows "\<exists>f'. prefetch_filters sv f items = (None, f') \<and> wf_store f'
           \<and> (\<forall>q. \<not> prefix [''filters''] q \<longrightarrow> f' q = f q)"
  using assms
proof (induction items arbitrary: f)
  case Nil
  then show ?case by simp
next
  case (Cons item rest)
  from Cons.prems(3) have pf: "prefix_free rest"
    and nsp: "\<forall>j \<in> set rest. \<not> strict_prefix item j"
    by (auto simp: prefix_free_iff)
  from Cons.prems(2) have it: "item \<noteq> []" "way_free f (''filters'' # item)"
    "download_ready sv f item"
    and rest: "\<forall>item \<in> set rest. item \<noteq> [] \<and> way_free f (''filters'' # item)
           \<and> download_ready sv f item" by simp_all
  show ?case
  proof (cases "h5_in f (''filters'' # item)")
    case True
    from Cons.IH[OF Cons.prems(1) rest pf] show ?thesis using True by simp
  next
    case False
    from download_step[OF Cons.prems(1) it(1,2) False it(3)] obtain f' where
      s: "add_filter_download sv f item = (None, f')" "wf_store f'"
         "\<forall>q. \<not> prefix [''filters''] q \<longrightarrow> f' q = f q"
         "\<forall>q. is_dataset (f' q) \<longrightarrow> q = ''filters'' # item \<or> is_dataset (f q)"
         "\<forall>q. f q \<noteq> None \<longrightarrow> f' q \<noteq> None" by blast
    have rest': "\<forall>j \<in> set rest. j \<noteq> [] \<and> way_free f' (''filters'' # j)
           \<and> download_ready sv f' j"
    proof
      fix j assume j: "j \<in> set rest"
      with rest have a: "j \<noteq> []" "way_free f (''filters'' # j)" "download_ready sv f j"
        by simp_all
      have "\<not> is_dataset (f' q)" if q: "strict_prefix q (''filters'' # j)" for q
      proof
        assume "is_dataset (f' q)"
        with s(4) have "q = ''filters'' # item \<or> is_dataset (f q)" by blast
        then show False
        proof
          assume "q = ''filters'' # item"
          with q have "strict_prefix item j" by simp
          with nsp j show False by blast
        next
          assume "is_dataset (f q)"
          with a(2) q show False by (simp add: way_free_iff)
        qed
      qed
      then have "way_free f' (''filters'' # j)" by (simp add: way_free_iff)
      moreover have "download_ready sv f' j" using a(3) s(5) by (rule download_ready_mono)
      ultimately show "j \<noteq> [] \<and> way_free f' (''filters'' # j) \<and> download_ready sv f' j"
        using a(1) by simp
    qed
    from Cons.IH[OF s(2) rest' pf] obtain f'' where
      r: "prefetch_filters sv f' rest = (None, f'')" "wf_store f''"
         "\<forall>q. \<not> prefix [''filters''] q \<longrightarrow> f'' q = f' q" by blast
    have "prefetch_filters sv f (item # rest) = (None, f'')" using False s(1) r(1) by simp
    then show ?thesis using r(2,3) s(3) by auto
  qed
qed

lemma way_free_frame:
  assumes "way_free f p" and "\<forall>q. strict_prefix q p \<longrightarrow> is_dataset (f' q) \<longrightarrow> is_dataset (f q)"
  shows "way_free f' p"
  using assms by (auto simp: way_free_iff)

lemma prefetch_ok:
  assumes wf: "wf_store f" and v: "vega_ready sv f"
    and items: "\<forall>item \<in> set items. item \<noteq> [] \<and> way_free f (''filters'' # item)
           \<and> download_ready sv f item"
    and pf: "prefix_free items"
  shows "\<exists>f'. prefetch sv f items = (None, f') \<and> wf_store f'
           \<and> (\<forall>q. \<not> prefix [''filters''] q \<and> \<not> prefix [''spectra''] q \<longrightarrow> f' q = f q)"
proof -
  from vega_step[OF wf v] obtain f1 where
    a: "(if \<not> h5_in f [''spectra'', ''calibration'', ''vega'']
               then add_spectra sv f ''vega'' else (None, f)) = (None, f1)"
       "wf_store f1" "\<forall>q. \<not> prefix [''spectra''] q \<longrightarrow> f1 q = f q" by blast
  have same: "f1 q = f q" if "prefix q (''filters'' # item)" for q item
  proof (cases "q = []")
    case True
    then show ?thesis using wf a(2) by (simp add: wf_store_def)
  next
    case False
    with that have "\<not> prefix [''spectra''] q" by (auto simp: prefix_Cons prefix_def)
    with a(3) show ?thesis by simp
  qed
  have items1: "\<forall>item \<in> set items. item \<noteq> [] \<and> way_free f1 (''filters'' # item)
           \<and> download_ready sv f1 item"
  proof
    fix item assume "item \<in> set items"
    with items have i: "item \<noteq> []" "way_free f (''filters'' # item)" "download_ready sv f item"
      by simp_all
    have "way_free f1 (''filters'' # item)"
      using i(2) same[of _ item] by (auto simp: way_free_iff strict_prefix_def)
    moreover have "download_ready sv f1 item"
      using i(3) same[of "''filters'' # item" item] by (simp add: download_ready_def h5_in_def)
    ultimately show "item \<noteq> [] \<and> way_free f1 (''filters'' # item) \<and> download_ready sv f1 item"
      using i(1) by simp
  qed
  from prefetch_filters_ok[OF a(2) items1 pf] obtain f' where
    b: "prefetch_filters sv f1 items = (None, f')" "wf_store f'"
       "\<forall>q. \<not> prefix [''filters''] q \<longrightarrow> f' q = f1 q" by blast
  have "prefetch sv f items = (None, f')" using a(1) b(1) by (simp add: prefetch_def)
  then show ?thesis using b(2,3) a(3) by auto
qed


lemma object_groups_ok:
  assumes wf: "wf_store f0"
    and way: "\<forall>q. prefix q (''objects'' # object_name) \<longrightarrow> \<not> is_dataset (f0 q)"
  shows "\<exists>f1 f2. require_group f0 [''objects''] = Inr f1
           \<and> require_group f1 (''objects'' # object_name) = Inr f2
           \<and> wf_store f2 \<and> f2 (''objects'' # object_name) = Some Group
           \<and> (\<forall>q. \<not> prefix q (''objects'' # object_name) \<longrightarrow> f2 q = f0 q)
           \<and> (\<forall>q. is_dataset (f2 q) \<longrightarrow> is_dataset (f0 q))"
proof -
  let ?O = "''objects'' # object_name"
  define f1 where "f1 = (if f0 [''objects''] = None then f0([''objects''] \<mapsto> Group) else f0)"
  have q1: "require_group f0 [''objects''] = Inr f1"
    using require_single[OF wf, of "''objects''"] by (simp add: f1_def)
  have wf1: "wf_store f1" using wf by (simp add: f1_def wf_upd_single)
  have ds1: "is_dataset (f0 q)" if "is_dataset (f1 q)" for q
    using that by (auto simp: f1_def is_dataset_def split: if_splits)
  have fr1: "f1 q = f0 q" if "\<not> prefix q ?O" for q
  proof -
    from that have "q \<noteq> [''objects'']" by auto
    then show ?thesis by (simp add: f1_def)
  qed
  show ?thesis
  proof (cases "h5_in f1 ?O")
    case True
    then have q2: "require_group f1 ?O = Inr f1" by (rule require_present)
    from True have ne: "f1 ?O \<noteq> None" by (simp add: h5_in_def)
    have "\<not> is_dataset (f1 ?O)" using way ds1 by blast
    with ne have "f1 ?O = Some Group"
      by (cases "f1 ?O"; cases "the (f1 ?O)") (auto simp: is_dataset_def)
    then show ?thesis using q1 q2 wf1 fr1 ds1 by blast
  next
    case False
    then have none: "f1 ?O = None" by (simp add: h5_in_def)
    have nb: "\<not> blocked f1 ?O" using none way ds1 by (auto simp: blocked_iff)
    let ?f2 = "h5_put f1 ?O Group"
    have q2: "require_group f1 ?O = Inr ?f2"
      using False nb by (simp add: require_group_def create_group_def)
    have wf2: "wf_store ?f2" using wf1 nb by (intro wf_put) simp_all
    have "?f2 ?O = Some Group" by (simp add: h5_put_def)
    moreover have "?f2 q = f0 q" if "\<not> prefix q ?O" for q
      using that fr1[OF that] by (auto simp: h5_put_def strict_prefix_def)
    moreover have "is_dataset (f0 q)" if "is_dataset (?f2 q)" for q
      using that ds1 by (auto simp: h5_put_def is_dataset_def split: if_splits)
    ultimately show ?thesis using q1 q2 wf2 by blast
  qed
qed











lemma outside_filters_spectra:
  assumes "prefix q (''objects'' # p)" "q \<noteq> []"
  shows "\<not> prefix [''filters''] q \<and> \<not> prefix [''spectra''] q"
  using assms by (auto simp: prefix_Cons prefix_def)


lemma example_services_simps:
  "magnitude_to_flux example_services n m e
     = (if n = [''Fake'', ''Filter''] then Inl KeyError else Inr (m, e))"
  "download_filter example_services n = Inr (None, None, ''photon'')"
  "add_library example_services l g = Inr g"
  by (simp_all add: example_services_def)

lemma example_vega_ready: "vega_ready example_services f"
  by (simp add: vega_ready_def confined_def example_services_simps)

lemma example_download_ready: "download_ready example_services f item"
  by (simp add: download_ready_def example_services_simps)


lemma way_free_empty: "way_free Map.empty p"
  by (simp add: way_free_iff is_dataset_def)




text \<open>
  With a dereddening requested for the filter, the profile is read outside the \<open>try\<close>; when
  that reader raises for the unresolved filter, so does the call, and no warning is issued.
\<close>

theorem missing_filter_dereddened_raises:
  "magnitude_to_flux example_services [''Fake'', ''Filter''] 15 (1 / 10) = Inl KeyError
   \<and> get_filter example_services [''Fake'', ''Filter''] = Inl KeyError
   \<and> fst (add_object example_services Map.empty [''beta Pic b''] None
            [([''Fake'', ''Filter''], Single 15 (1 / 10))] (DereddenAll (3 / 2))) = Some KeyError
   \<and> fst (snd (add_object example_services Map.empty [''beta Pic b''] None
            [([''Fake'', ''Filter''], Single 15 (1 / 10))] (DereddenAll (3 / 2)))) = []"
proof -
  let ?am = "[([''Fake'', ''Filter''], Single 15 (1 / 10))]"
  let ?K = "[[''Fake'', ''Filter'']]"
  have wf: "wf_store Map.empty" by (simp add: wf_store_def)
  have items: "\<forall>x \<in> set ?K. x \<noteq> [] \<and> way_free Map.empty (''filters'' # x)
      \<and> download_ready example_services Map.empty x"
    by (simp add: way_free_empty example_download_ready)
  have pf: "prefix_free ?K" by (simp add: prefix_free_def)
  from prefetch_ok[OF wf example_vega_ready items pf] obtain f0 where
    p0: "prefetch example_services Map.empty ?K = (None, f0)" "wf_store f0"
        "\<forall>q. \<not> prefix [''filters''] q \<and> \<not> prefix [''spectra''] q \<longrightarrow> f0 q = Map.empty q"
    by blast
  have "\<not> is_dataset (f0 q)" if "prefix q [''objects'', ''beta Pic b'']" for q
  proof (cases "q = []")
    case True
    then show ?thesis using p0(2) by (simp add: wf_store_def is_dataset_def)
  next
    case False
    from outside_filters_spectra[OF that False] p0(3) have "f0 q = None" by simp
    then show ?thesis by (simp add: is_dataset_def)
  qed
  then have way: "\<forall>q. prefix q [''objects'', ''beta Pic b''] \<longrightarrow> \<not> is_dataset (f0 q)" by blast
  from object_groups_ok[OF p0(2) way] obtain f1 f2 where
    g2: "require_group f0 [''objects''] = Inr f1"
        "require_group f1 [''objects'', ''beta Pic b''] = Inr f2" by blast
  have d3: "write_distance f2 [''beta Pic b''] None = (None, f2)" by (simp add: write_distance_def)
  have cv: "convert_loop example_services (DereddenAll (3 / 2)) ?am = ([], Inl KeyError)"
    by (simp add: convert_entry_def dered_factor_def example_services_def)
  have "add_object example_services Map.empty [''beta Pic b''] None ?am (DereddenAll (3 / 2))
      = (Some KeyError, [], f2)"
    using p0(1) g2 d3 cv by (simp add: add_object_def del: convert_loop.simps)
  then show ?thesis by (simp add: example_services_def)
qed

end
